theory Spec2Isabelle
  imports Complex_Main
begin

section \<open>JavaScript values used by the authentication core\<close>

text \<open>
  Strings are lists of 8-bit characters. The whitespace that \<^verbatim>\<open>String.prototype.trim\<close>
  removes is, within that range: TAB, LF, VT, FF, CR, SPACE and NBSP.
\<close>

definition js_whitespace :: "char \<Rightarrow> bool" where
  "js_whitespace c \<longleftrightarrow> of_char c \<in> {9, 10, 11, 12, 13, 32, 160 :: nat}"

definition js_trim :: "string \<Rightarrow> string" where
  "js_trim s = rev (dropWhile js_whitespace (rev (dropWhile js_whitespace s)))"

text \<open>
  \<^verbatim>\<open>s.substring(a, b)\<close>: both indices are clamped to \<open>[0, length]\<close> and swapped
  when out of order; \<^verbatim>\<open>s.substring(a)\<close> runs to the end of the string.
\<close>

definition js_substring :: "string \<Rightarrow> int \<Rightarrow> int \<Rightarrow> string" where
  "js_substring s a b =
     (let n = int (length s);
          a' = min (max a 0) n;
          b' = min (max b 0) n;
          lo = min a' b';
          hi = max a' b'
      in take (nat (hi - lo)) (drop (nat lo) s))"

definition js_substring_from :: "string \<Rightarrow> int \<Rightarrow> string" where
  "js_substring_from s a = js_substring s a (int (length s))"

definition js_startsWith :: "string \<Rightarrow> string \<Rightarrow> bool" where
  "js_startsWith s p \<longleftrightarrow> take (length p) s = p"

text \<open>Truthiness of an optional string: \<^verbatim>\<open>undefined\<close> and \<^verbatim>\<open>''\<close> are falsy.\<close>

fun truthy :: "string option \<Rightarrow> bool" where
  "truthy None = False"
| "truthy (Some s) = (s \<noteq> [])"

text \<open>Decimal rendering of a non-negative integer, as a template literal prints it.\<close>

definition digit_char :: "nat \<Rightarrow> char" where
  "digit_char d = char_of (48 + d)"

function string_of_nat :: "nat \<Rightarrow> string" where
  "string_of_nat n =
     (if n < 10 then [digit_char n] else string_of_nat (n div 10) @ [digit_char (n mod 10)])"
  by pat_completeness auto
termination
  by (relation "measure (\<lambda>n. n)") auto

section \<open>Authentication types (auth/types)\<close>

record AuthToken =
  accessToken :: string
  refreshToken :: "string option"
  expiresAt :: int
  tokenType :: string
  scope :: string
  id_field :: "string option"

datatype AuthMethod = API_KEY | OAUTH

datatype AuthState =
  INITIAL | AUTHENTICATING | AUTHENTICATED | FAILED | REFRESHING | EXPIRED | UNAUTHENTICATED

section \<open>Token helpers (auth/tokens)\<close>

text \<open>
  \<open>now_ms\<close> is the value of \<^verbatim>\<open>Date.now()\<close>; \<open>toLocaleString\<close> stands for the
  locale-dependent rendering of a date given in milliseconds.
\<close>

definition formatTokenExpiration :: "(int \<Rightarrow> string) \<Rightarrow> int \<Rightarrow> string" where
  "formatTokenExpiration toLocaleString e =
     (if e = 0 then ''never'' else toLocaleString (e * 1000))"

definition getTokenDetails ::
  "(int \<Rightarrow> string) \<Rightarrow> int \<Rightarrow> AuthToken \<Rightarrow> (string \<rightharpoonup> string)" where
  "getTokenDetails toLocaleString now_ms token =
     (let details0 = Map.empty(''type'' \<mapsto>
            (if tokenType token \<noteq> [] then tokenType token else ''Bearer''));
          details1 =
            (if expiresAt token \<noteq> 0 then
               (let d = details0(''expires'' \<mapsto>
                          formatTokenExpiration toLocaleString (expiresAt token));
                    now = now_ms div 1000;
                    expiresIn = expiresAt token - now
                in if expiresIn > 0
                   then d(''expiresIn'' \<mapsto> string_of_nat (nat (expiresIn div 60)) @ '' minutes'')
                   else d(''expiresIn'' \<mapsto> ''Expired''))
             else details0(''expires'' \<mapsto> ''Never''));
          details2 = (if scope token \<noteq> [] then details1(''scope'' \<mapsto> scope token)
                      else details1);
          details3 = (if truthy (id_field token) then details2(''id'' \<mapsto> the (id_field token))
                      else details2)
      in if accessToken token \<noteq> [] then
           (let tokenLength = int (length (accessToken token))
            in details3(''accessToken'' \<mapsto>
                 js_substring (accessToken token) 0 4 @ ''...'' @
                 js_substring_from (accessToken token) (tokenLength - 4)))
         else details3)"

definition extractTokenFromHeader :: "string \<Rightarrow> string option" where
  "extractTokenFromHeader header =
     (if header = [] then None
      else if js_startsWith header ''Bearer '' then Some (js_trim (js_substring_from header 7))
      else if CHR '' '' \<notin> set header then Some (js_trim header)
      else None)"

definition createAuthorizationHeader :: "AuthToken \<Rightarrow> string" where
  "createAuthorizationHeader token =
     (let tokenType = (if tokenType token \<noteq> [] then tokenType token else ''Bearer'')
      in tokenType @ '' '' @ accessToken token)"

section \<open>Errors (errors/types, errors/formatter)\<close>

datatype ErrorCategory =
    APPLICATION | AUTHENTICATION | NETWORK | FILE_SYSTEM | COMMAND_EXECUTION | AI_SERVICE
  | CONFIGURATION | RESOURCE | UNKNOWN | INTERNAL | VALIDATION | INITIALIZATION | SERVER
  | API | TIMEOUT | RATE_LIMIT | CONNECTION | AUTHORIZATION | FILE_NOT_FOUND | FILE_ACCESS
  | FILE_READ | FILE_WRITE | COMMAND | COMMAND_NOT_FOUND

text \<open>
  A thrown value: a plain \<^verbatim>\<open>Error\<close> with its message, a \<^verbatim>\<open>UserError\<close> with message,
  category, resolution and cause, or a value that is not an \<^verbatim>\<open>Error\<close>, kept as the
  string \<^verbatim>\<open>String(value)\<close> gives.
\<close>

datatype js_value =
    Error string
  | UserError string ErrorCategory "string option" "js_value option"
  | Other string

record UserErrorOptions =
  cause :: "js_value option"
  category :: "ErrorCategory option"
  resolution :: "string option"

text \<open>
  The constructor of \<^verbatim>\<open>UserError\<close> takes \<^verbatim>\<open>options.category || ErrorCategory.UNKNOWN\<close>;
  \<^verbatim>\<open>APPLICATION\<close> is the enum value 0, hence falsy.
\<close>

definition createUserError :: "string \<Rightarrow> UserErrorOptions \<Rightarrow> js_value" where
  "createUserError message options =
     UserError message
       (case category options of
          None \<Rightarrow> UNKNOWN
        | Some c \<Rightarrow> (if c = APPLICATION then UNKNOWN else c))
       (resolution options) (cause options)"

text \<open>\<^verbatim>\<open>error instanceof Error ? error.message : String(error)\<close>\<close>

fun error_message :: "js_value \<Rightarrow> string" where
  "error_message (Error m) = m"
| "error_message (UserError m _ _ _) = m"
| "error_message (Other s) = s"

text \<open>\<^verbatim>\<open>error instanceof Error ? error : new Error(String(error))\<close>\<close>

fun as_Error :: "js_value \<Rightarrow> js_value" where
  "as_Error (Other s) = Error s"
| "as_Error e = e"

fun error_category :: "js_value \<Rightarrow> ErrorCategory option" where
  "error_category (UserError _ c _ _) = Some c"
| "error_category _ = None"

section \<open>Resilience primitives (utils/async)\<close>

text \<open>
  Delays are JavaScript numbers, modelled as reals. Callbacks may throw: \<open>onRetry\<close>
  returns the value it throws, if any.
\<close>

record RetryOptions =
  maxRetries :: int
  initialDelayMs :: real
  maxDelayMs :: real
  backoff :: bool
  isRetryable :: "(js_value \<Rightarrow> bool) option"
  onRetry :: "(js_value \<Rightarrow> int \<Rightarrow> js_value option) option"

record PartialRetryOptions =
  p_maxRetries :: "int option"
  p_initialDelayMs :: "real option"
  p_maxDelayMs :: "real option"
  p_backoff :: "bool option"
  p_isRetryable :: "(js_value \<Rightarrow> bool) option"
  p_onRetry :: "(js_value \<Rightarrow> int \<Rightarrow> js_value option) option"

definition retryOptions :: "PartialRetryOptions \<Rightarrow> RetryOptions" where
  "retryOptions options =
     \<lparr>maxRetries = (case p_maxRetries options of Some n \<Rightarrow> n | None \<Rightarrow> 3),
      initialDelayMs = (case p_initialDelayMs options of Some d \<Rightarrow> d | None \<Rightarrow> 1000),
      maxDelayMs = (case p_maxDelayMs options of Some d \<Rightarrow> d | None \<Rightarrow> 10000),
      backoff = (case p_backoff options of Some b \<Rightarrow> b | None \<Rightarrow> True),
      isRetryable = p_isRetryable options,
      onRetry = p_onRetry options\<rparr>"

text \<open>
  \<open>random\<close> is the value \<^verbatim>\<open>Math.random()\<close> returns; the function is only called
  with \<open>attempt \<ge> 1\<close>.
\<close>

definition calculateRetryDelay :: "int \<Rightarrow> RetryOptions \<Rightarrow> real \<Rightarrow> real" where
  "calculateRetryDelay attempt options random =
     (if \<not> backoff options then initialDelayMs options
      else
        (let exponentialDelay = initialDelayMs options * 2 ^ nat (attempt - 1);
             jitter = 0.1 * exponentialDelay;
             jitteredDelay = exponentialDelay - jitter + (random * jitter * 2)
         in min jitteredDelay (maxDelayMs options)))"

text \<open>
  What the wrapped call does, in order: the \<open>k\<close>-th invocation of the operation
  (counted from 0), a sleep of some milliseconds, a call of \<open>onRetry\<close>.
\<close>

datatype retry_event =
    is_Invoke: Invoke nat
  | is_Sleep: Sleep real
  | is_OnRetry: OnRetry js_value int

text \<open>
  The body of the \<^verbatim>\<open>try\<close> block for one value of \<open>attempt\<close>. \<open>fn k\<close> is the outcome
  of the \<open>k\<close>-th invocation of the operation, \<open>random a\<close> the random number drawn while
  computing the delay of attempt \<open>a\<close>. The result is the outcome of the block, the number
  of invocations made so far and the events of the block.
\<close>

definition retry_attempt ::
  "RetryOptions \<Rightarrow> (nat \<Rightarrow> js_value + 'a) \<Rightarrow> (int \<Rightarrow> real) \<Rightarrow> int \<Rightarrow> js_value \<Rightarrow> nat \<Rightarrow>
     (js_value + 'a) \<times> nat \<times> retry_event list" where
  "retry_attempt options fn random attempt lastError calls =
     (if attempt = 0 then (fn calls, Suc calls, [Invoke calls])
      else
        (let delayMs = calculateRetryDelay attempt options (random attempt)
         in case onRetry options of
              None \<Rightarrow> (fn calls, Suc calls, [Sleep delayMs, Invoke calls])
            | Some callback \<Rightarrow>
                (case callback lastError attempt of
                   Some thrown \<Rightarrow> (Inl thrown, calls, [Sleep delayMs, OnRetry lastError attempt])
                 | None \<Rightarrow>
                     (fn calls, Suc calls,
                      [Sleep delayMs, OnRetry lastError attempt, Invoke calls]))))"

function retry_loop ::
  "RetryOptions \<Rightarrow> (nat \<Rightarrow> js_value + 'a) \<Rightarrow> (int \<Rightarrow> real) \<Rightarrow> int \<Rightarrow> js_value \<Rightarrow> nat \<Rightarrow>
     (js_value + 'a) \<times> retry_event list" where
  "retry_loop options fn random attempt lastError calls =
     (if attempt \<le> maxRetries options then
        (case retry_attempt options fn random attempt lastError calls of
           (Inr v, calls', events) \<Rightarrow> (Inr v, events)
         | (Inl error, calls', events) \<Rightarrow>
             if attempt \<ge> maxRetries options then (Inl (as_Error error), events)
             else if (case isRetryable options of
                        Some retryable \<Rightarrow> \<not> retryable (as_Error error)
                      | None \<Rightarrow> False)
             then (Inl (as_Error error), events)
             else
               (case retry_loop options fn random (attempt + 1) (as_Error error) calls' of
                  (outcome, later) \<Rightarrow> (outcome, events @ later)))
      else (Inl lastError, []))"
  by pat_completeness auto
termination
  by (relation "measure (\<lambda>(options, fn, random, attempt, lastError, calls).
                          nat (maxRetries options + 1 - attempt))") auto

declare retry_loop.simps [simp del]

definition withRetry ::
  "(nat \<Rightarrow> js_value + 'a) \<Rightarrow> PartialRetryOptions \<Rightarrow> (int \<Rightarrow> real) \<Rightarrow>
     (js_value + 'a) \<times> retry_event list" where
  "withRetry fn options random =
     retry_loop (retryOptions options) fn random 0 (Error ''Unknown error'') 0"

text \<open>
  \<open>withConcurrency\<close>: every worker claims the next index and awaits the operation on that
  item. \<open>active\<close> lists, for each worker still running, the index it awaits;
  \<open>sched k\<close> chooses which of them settles at step \<open>k\<close>, so every order of completion
  is some \<open>sched\<close>. A rejection rejects \<^verbatim>\<open>Promise.all\<close>: the caller gets that error.
  The result array has an empty slot (\<open>None\<close>) where nothing was written. Every index in
  \<open>active\<close> was claimed below \<open>length items\<close>. The second component lists the
  indices in the order in which their invocations settled, up to the first rejection.
\<close>

function run_workers ::
  "(nat \<Rightarrow> nat) \<Rightarrow> nat \<Rightarrow> ('t \<Rightarrow> nat \<Rightarrow> js_value + 'r) \<Rightarrow> 't list \<Rightarrow> 'r option list \<Rightarrow> nat \<Rightarrow>
     nat list \<Rightarrow> (js_value + 'r option list) \<times> nat list" where
  "run_workers sched k fn items results currentIndex active =
     (if active = [] then (Inr results, [])
      else
        (let p = sched k mod length active;
             index = active ! p
         in case fn (items ! index) index of
              Inl error \<Rightarrow> (Inl error, [index])
            | Inr v \<Rightarrow>
                if currentIndex < length items
                then (case run_workers sched (Suc k) fn items (results[index := Some v])
                             (Suc currentIndex) (active[p := currentIndex]) of
                        (outcome, later) \<Rightarrow> (outcome, index # later))
                else (case run_workers sched (Suc k) fn items (results[index := Some v])
                             currentIndex (take p active @ drop (Suc p) active) of
                        (outcome, later) \<Rightarrow> (outcome, index # later))))"
  by pat_completeness auto
termination
proof (relation "measure (\<lambda>(sched, k, fn, items, results, currentIndex, active).
                          (length items - currentIndex) + length active)", goal_cases)
  case 1
  show ?case by simp
next
  case 2
  then show ?case by simp
next
  case (3 sched k fn items results currentIndex active p index v)
  from 3(1) have "sched k mod length active < length active" by simp
  then have "sched k mod length active + (length active - Suc (sched k mod length active))
             < length active"
    by linarith
  with 3 show ?case by simp
qed

declare run_workers.simps [simp del]

text \<open>
  \<^verbatim>\<open>Array.from({ length: Math.min(concurrency, items.length) }, ...)\<close> creates no worker
  when the length is not positive; each worker created claims one index at once.
\<close>

definition withConcurrency ::
  "(nat \<Rightarrow> nat) \<Rightarrow> 't list \<Rightarrow> ('t \<Rightarrow> nat \<Rightarrow> js_value + 'r) \<Rightarrow> int \<Rightarrow>
     (js_value + 'r option list) \<times> nat list" where
  "withConcurrency sched items fn concurrency =
     (if items = [] then (Inr [], [])
      else
        (let workers = nat (min concurrency (int (length items)))
         in run_workers sched 0 fn items (replicate (length items) None) workers
              [0..<workers]))"

section \<open>OAuth flow (auth/oauth)\<close>

record OAuthConfig =
  clientId :: string
  clientSecret :: "string option"
  authorizationEndpoint :: string
  tokenEndpoint :: string
  redirectUri :: string
  scopes :: "string list"
  responseType :: string
  usePkce :: bool

definition DEFAULT_OAUTH_CONFIG :: OAuthConfig where
  "DEFAULT_OAUTH_CONFIG =
     \<lparr>clientId = ''claude-code-cli'', clientSecret = None,
      authorizationEndpoint = ''https://auth.anthropic.com/oauth2/auth'',
      tokenEndpoint = ''https://auth.anthropic.com/oauth2/token'',
      redirectUri = ''http://localhost:3000/callback'',
      scopes = [''anthropic.claude''], responseType = ''code'', usePkce = True\<rparr>"

record AuthResult =
  success :: bool
  res_method :: "AuthMethod option"
  res_token :: "AuthToken option"
  res_state :: AuthState
  res_error :: "string option"

text \<open>
  The token endpoint's JSON body, with the fields of the wire contract; a request with its
  form parameters as a list of pairs (before URL encoding); a response with its status
  flag, its text and the outcome of parsing it as JSON.
\<close>

record token_response =
  access_token :: string
  refresh_token :: "string option"
  expires_in :: "int option"
  token_type :: "string option"
  scope_field :: "string option"

record http_request =
  url :: string
  http_method :: string
  headers :: "(string \<times> string) list"
  body :: "(string \<times> string) list"

record http_response =
  ok :: bool
  text_body :: string
  json_body :: "js_value + token_response"

record auth_url =
  base :: string
  searchParams :: "(string \<times> string) list"

datatype effect = OpenBrowser auth_url | Fetch http_request

text \<open>
  The world the flow runs in: \<open>random_draw k\<close> is the \<open>k\<close>-th value of
  \<^verbatim>\<open>Math.floor(Math.random() * chars.length)\<close>, \<open>url_valid\<close> tells whether
  \<^verbatim>\<open>new URL\<close> accepts a string, \<open>open_browser\<close> gives what \<^verbatim>\<open>open\<close> throws (if
  anything), \<open>fetch\<close> answers a request or throws, \<open>date_now\<close> is \<^verbatim>\<open>Date.now()\<close>.
\<close>

record oauth_env =
  random_draw :: "nat \<Rightarrow> nat"
  url_valid :: "string \<Rightarrow> bool"
  open_browser :: "auth_url \<Rightarrow> js_value option"
  fetch :: "http_request \<Rightarrow> js_value + http_response"
  date_now :: int

definition token_headers :: "(string \<times> string) list" where
  "token_headers = [(''Content-Type'', ''application/x-www-form-urlencoded''),
                    (''Accept'', ''application/json'')]"

definition client_params :: "OAuthConfig \<Rightarrow> (string \<times> string) list" where
  "client_params config =
     (''client_id'', clientId config) #
     (if truthy (clientSecret config) then [(''client_secret'', the (clientSecret config))]
      else [])"

definition refreshOAuthToken_try ::
  "oauth_env \<Rightarrow> string \<Rightarrow> OAuthConfig \<Rightarrow> js_value + AuthToken" where
  "refreshOAuthToken_try env rt config =
     (case fetch env
             \<lparr>url = tokenEndpoint config, http_method = ''POST'', headers = token_headers,
              body = client_params config @
                     [(''grant_type'', ''refresh_token''), (''refresh_token'', rt)]\<rparr> of
        Inl e \<Rightarrow> Inl e
      | Inr response \<Rightarrow>
          if \<not> ok response then
            Inl (createUserError (''Failed to refresh token: '' @ text_body response)
                   \<lparr>cause = None, category = Some AUTHENTICATION,
                    resolution = Some ''Try logging in again. Your session may have expired.''\<rparr>)
          else
            (case json_body response of
               Inl e \<Rightarrow> Inl e
             | Inr data \<Rightarrow>
                 Inr \<lparr>accessToken = access_token data,
                      refreshToken =
                        Some (if truthy (refresh_token data) then the (refresh_token data)
                              else rt),
                      expiresAt = date_now env div 1000 +
                        (case expires_in data of
                           None \<Rightarrow> 3600
                         | Some n \<Rightarrow> (if n = 0 then 3600 else n)),
                      tokenType = (if truthy (token_type data) then the (token_type data)
                                   else ''Bearer''),
                      scope = (if truthy (scope_field data) then the (scope_field data)
                               else []),
                      id_field = None\<rparr>))"

definition refreshOAuthToken ::
  "oauth_env \<Rightarrow> string \<Rightarrow> OAuthConfig \<Rightarrow> js_value + AuthToken" where
  "refreshOAuthToken env rt config =
     (case refreshOAuthToken_try env rt config of
        Inr token \<Rightarrow> Inr token
      | Inl error \<Rightarrow>
          Inl (createUserError ''Failed to refresh authentication token''
                 \<lparr>cause = Some error, category = Some AUTHENTICATION,
                  resolution = Some ''Try logging in again with the --login flag.''\<rparr>))"

definition chars :: string where
  "chars = ''ABCDEFGHIJKLMNOPQRSTUVWXYZabcdefghijklmnopqrstuvwxyz0123456789-._~''"

text \<open>
  \<open>generateRandomString n rnd k\<close> draws \<open>n\<close> characters starting at draw \<open>k\<close> and
  returns the string with the index of the next draw.
\<close>

fun generateRandomString :: "nat \<Rightarrow> (nat \<Rightarrow> nat) \<Rightarrow> nat \<Rightarrow> string \<times> nat" where
  "generateRandomString 0 rnd k = ([], k)"
| "generateRandomString (Suc n) rnd k =
     (let c = chars ! (rnd k mod length chars);
          r = generateRandomString n rnd (Suc k)
      in (c # fst r, snd r))"

definition generatePkceParams :: "(nat \<Rightarrow> nat) \<Rightarrow> nat \<Rightarrow> (string \<times> string) \<times> nat" where
  "generatePkceParams rnd k =
     (let r = generateRandomString 64 rnd k;
          codeVerifier = fst r;
          codeChallenge = codeVerifier
      in ((codeVerifier, codeChallenge), snd r))"

fun js_join :: "string \<Rightarrow> string list \<Rightarrow> string" where
  "js_join sep [] = []"
| "js_join sep [x] = x"
| "js_join sep (x # y # ys) = x @ sep @ js_join sep (y # ys)"

definition buildAuthorizationUrl ::
  "oauth_env \<Rightarrow> OAuthConfig \<Rightarrow> string \<Rightarrow> string \<Rightarrow> js_value + auth_url" where
  "buildAuthorizationUrl env config state codeChallenge =
     (if \<not> url_valid env (authorizationEndpoint config) then Inl (Error ''Invalid URL'')
      else Inr \<lparr>base = authorizationEndpoint config,
                searchParams =
                  [(''client_id'', clientId config),
                   (''redirect_uri'', redirectUri config),
                   (''response_type'', responseType config),
                   (''state'', state)] @
                  (if scopes config \<noteq> [] then [(''scope'', js_join '' '' (scopes config))]
                   else []) @
                  (if codeChallenge \<noteq> []
                   then [(''code_challenge'', codeChallenge),
                         (''code_challenge_method'', ''S256'')]
                   else [])\<rparr>)"

text \<open>
  The callback listener is simulated in the source: it resolves with a fresh random
  \<open>code\<close> and a fresh random \<open>receivedState\<close>.
\<close>

definition startLocalServerForCallback ::
  "oauth_env \<Rightarrow> string \<Rightarrow> nat \<Rightarrow> js_value + (string \<times> string)" where
  "startLocalServerForCallback env redirect k =
     (if \<not> url_valid env redirect then Inl (Error ''Invalid URL'')
      else let c = generateRandomString 32 (random_draw env) k;
               s = generateRandomString 32 (random_draw env) (snd c)
           in Inr (fst c, fst s))"

definition exchangeCodeForToken ::
  "oauth_env \<Rightarrow> OAuthConfig \<Rightarrow> string \<Rightarrow> string \<Rightarrow> (js_value + AuthToken) \<times> effect list" where
  "exchangeCodeForToken env config code codeVerifier =
     (let params = client_params config @
                   [(''grant_type'', ''authorization_code''), (''code'', code),
                    (''redirect_uri'', redirectUri config)] @
                   (if codeVerifier \<noteq> [] then [(''code_verifier'', codeVerifier)] else []);
          request = \<lparr>url = tokenEndpoint config, http_method = ''POST'',
                     headers = token_headers, body = params\<rparr>
      in (case fetch env request of
            Inl e \<Rightarrow> Inl e
          | Inr response \<Rightarrow>
              if \<not> ok response then
                Inl (createUserError (''Failed to exchange code for token: '' @ text_body response)
                       \<lparr>cause = None, category = Some AUTHENTICATION, resolution = None\<rparr>)
              else
                (case json_body response of
                   Inl e \<Rightarrow> Inl e
                 | Inr data \<Rightarrow>
                     Inr \<lparr>accessToken = access_token data,
                          refreshToken = refresh_token data,
                          expiresAt = date_now env div 1000 +
                            (case expires_in data of
                               None \<Rightarrow> 3600
                             | Some n \<Rightarrow> (if n = 0 then 3600 else n)),
                          tokenType = (if truthy (token_type data) then the (token_type data)
                                       else ''Bearer''),
                          scope = (if truthy (scope_field data) then the (scope_field data)
                                   else []),
                          id_field = None\<rparr>),
          [Fetch request]))"

text \<open>
  The flow up to the point where the callback has arrived: on success it yields
  \<open>(codeVerifier, state, code, receivedState)\<close>.
\<close>

definition awaitCallback ::
  "oauth_env \<Rightarrow> OAuthConfig \<Rightarrow>
     (js_value + (string \<times> string \<times> string \<times> string)) \<times> effect list" where
  "awaitCallback env config =
     (let pkce = (if usePkce config then generatePkceParams (random_draw env) 0
                  else (([], []), 0));
          codeVerifier = fst (fst pkce);
          codeChallenge = snd (fst pkce);
          st = generateRandomString 32 (random_draw env) (snd pkce);
          state = fst st
      in case buildAuthorizationUrl env config state codeChallenge of
           Inl e \<Rightarrow> (Inl e, [])
         | Inr authUrl \<Rightarrow>
             (case open_browser env authUrl of
                Some e \<Rightarrow> (Inl e, [OpenBrowser authUrl])
              | None \<Rightarrow>
                  (case startLocalServerForCallback env (redirectUri config) (snd st) of
                     Inl e \<Rightarrow> (Inl e, [OpenBrowser authUrl])
                   | Inr (code, receivedState) \<Rightarrow>
                       (Inr (codeVerifier, state, code, receivedState),
                        [OpenBrowser authUrl]))))"

definition performOAuthFlow_try ::
  "oauth_env \<Rightarrow> OAuthConfig \<Rightarrow> (js_value + AuthToken) \<times> effect list" where
  "performOAuthFlow_try env config =
     (case awaitCallback env config of
        (Inl e, tr) \<Rightarrow> (Inl e, tr)
      | (Inr (codeVerifier, state, code, receivedState), tr) \<Rightarrow>
          if state \<noteq> receivedState then
            (Inl (createUserError
                    ''OAuth state mismatch. Authentication may have been tampered with''
                    \<lparr>cause = None, category = Some AUTHENTICATION,
                     resolution = Some
                       ''Try the authentication process again. If the issue persists, contact support.''\<rparr>),
             tr)
          else
            (let r = exchangeCodeForToken env config code codeVerifier
             in (fst r, tr @ snd r)))"

definition performOAuthFlow :: "oauth_env \<Rightarrow> OAuthConfig \<Rightarrow> AuthResult \<times> effect list" where
  "performOAuthFlow env config =
     (case performOAuthFlow_try env config of
        (Inr token, tr) \<Rightarrow>
          (\<lparr>success = True, res_method = Some OAUTH, res_token = Some token,
            res_state = AUTHENTICATED, res_error = None\<rparr>, tr)
      | (Inl error, tr) \<Rightarrow>
          (\<lparr>success = False, res_method = Some OAUTH, res_token = None,
            res_state = FAILED, res_error = Some (error_message error)\<rparr>, tr))"

definition is_Fetch :: "effect \<Rightarrow> bool" where
  "is_Fetch e = (case e of Fetch _ \<Rightarrow> True | OpenBrowser _ \<Rightarrow> False)"

section \<open>Authentication manager of auth/index\<close>

text \<open>
  The manager of \<^verbatim>\<open>auth/index.ts\<close> keeps a status record (the interface the file calls
  \<^verbatim>\<open>AuthState\<close>) and a token store, an in-memory map keyed by
  \<open>AUTH_STORAGE_KEY\<close>. Its fields carry the prefix \<open>st_\<close> or \<open>i_\<close> where the
  source's name is already taken.
\<close>

record AuthConfig =
  cfg_oauth :: "OAuthConfig option"
  cfg_preferredMethod :: "AuthMethod option"
  cfg_autoRefresh :: "bool option"
  cfg_tokenRefreshThreshold :: "int option"
  cfg_maxRetryAttempts :: "int option"

definition DEFAULT_AUTH_CONFIG :: AuthConfig where
  "DEFAULT_AUTH_CONFIG =
     \<lparr>cfg_oauth = None, cfg_preferredMethod = Some API_KEY, cfg_autoRefresh = Some True,
      cfg_tokenRefreshThreshold = Some 300, cfg_maxRetryAttempts = Some 3\<rparr>"

definition AUTH_STORAGE_KEY :: string where
  "AUTH_STORAGE_KEY = ''anthropic-auth''"

record auth_status =
  initialized :: bool
  authenticated :: bool
  st_token :: "AuthToken option"
  st_method :: "AuthMethod option"
  lastError :: "js_value option"

record IndexAuthManager =
  i_config :: AuthConfig
  i_tokenStorage :: "string \<rightharpoonup> AuthToken"
  i_state :: auth_status

definition new_IndexAuthManager :: "AuthConfig \<Rightarrow> IndexAuthManager" where
  "new_IndexAuthManager config =
     \<lparr>i_config = config, i_tokenStorage = Map.empty,
      i_state = \<lparr>initialized = False, authenticated = False, st_token = None,
                 st_method = None, lastError = None\<rparr>\<rparr>"

definition i_isAuthenticated :: "IndexAuthManager \<Rightarrow> bool" where
  "i_isAuthenticated m \<longleftrightarrow> authenticated (i_state m) \<and> st_token (i_state m) \<noteq> None"

definition i_held_refreshToken :: "IndexAuthManager \<Rightarrow> string option" where
  "i_held_refreshToken m =
     (case st_token (i_state m) of None \<Rightarrow> None | Some t \<Rightarrow> refreshToken t)"

definition i_refreshToken :: "oauth_env \<Rightarrow> IndexAuthManager \<Rightarrow> bool \<times> IndexAuthManager" where
  "i_refreshToken env m =
     (if \<not> truthy (i_held_refreshToken m) then (False, m)
      else
        (let oauthConfig = (case cfg_oauth (i_config m) of
                              Some c \<Rightarrow> c | None \<Rightarrow> DEFAULT_OAUTH_CONFIG)
         in case refreshOAuthToken env (the (i_held_refreshToken m)) oauthConfig of
              Inr newToken \<Rightarrow>
                (True,
                 m\<lparr>i_state := (i_state m)\<lparr>st_token := Some newToken\<rparr>,
                   i_tokenStorage := (i_tokenStorage m)(AUTH_STORAGE_KEY \<mapsto> newToken)\<rparr>)
            | Inl error \<Rightarrow>
                (False,
                 m\<lparr>i_state := (i_state m)\<lparr>lastError := Some (as_Error error),
                                            st_token := None, authenticated := False\<rparr>,
                   i_tokenStorage := (i_tokenStorage m)(AUTH_STORAGE_KEY := None)\<rparr>)))"

text \<open>
  \<^verbatim>\<open>auth/index.ts\<close> imports \<^verbatim>\<open>AuthToken, AuthConfig, AuthMethod, AuthResult, OAuthConfig\<close>
  from auth/types and declares \<^verbatim>\<open>AuthState\<close> itself, as an interface. An interface
  leaves no value behind, so at run time the expressions \<^verbatim>\<open>AuthState.AUTHENTICATED\<close> and
  \<^verbatim>\<open>AuthState.FAILED\<close> of this file throw a \<^verbatim>\<open>ReferenceError\<close> (an \<^verbatim>\<open>Error\<close>; the model
  keeps its message).
\<close>

definition i_AuthState :: "AuthState \<Rightarrow> js_value + AuthState" where
  "i_AuthState member = Inl (Error ''AuthState is not defined'')"

text \<open>
  \<open>authenticateWithApiKey\<close>: the \<^verbatim>\<open>try\<close> block validates the key, saves the token,
  updates the status and builds the result; the \<^verbatim>\<open>catch\<close> block records the error,
  resets the status and builds the result of the failure. The first component is what the
  call returns, or the value it rejects with.
\<close>

definition i_authenticateWithApiKey_try ::
  "IndexAuthManager \<Rightarrow> string \<Rightarrow> (js_value + AuthResult) \<times> IndexAuthManager" where
  "i_authenticateWithApiKey_try m apiKey =
     (if apiKey = [] \<or> length (js_trim apiKey) < 10 then
        (Inl (createUserError ''Invalid API key format''
                \<lparr>cause = None, category = Some AUTHENTICATION,
                 resolution = Some ''Check your API key and try again.''\<rparr>),
         m)
      else
        (let token = \<lparr>accessToken = apiKey, refreshToken = None, expiresAt = 0,
                      tokenType = ''Bearer'', scope = ''anthropic.api'', id_field = None\<rparr>;
             m1 = m\<lparr>i_tokenStorage := (i_tokenStorage m)(AUTH_STORAGE_KEY \<mapsto> token),
                    i_state := (i_state m)\<lparr>st_token := Some token, authenticated := True,
                                             st_method := Some API_KEY\<rparr>\<rparr>
         in case i_AuthState AUTHENTICATED of
              Inl e \<Rightarrow> (Inl e, m1)
            | Inr st \<Rightarrow>
                (Inr \<lparr>success = True, res_method = Some API_KEY, res_token = Some token,
                      res_state = st, res_error = None\<rparr>, m1)))"

definition i_authenticateWithApiKey ::
  "IndexAuthManager \<Rightarrow> string \<Rightarrow> (js_value + AuthResult) \<times> IndexAuthManager" where
  "i_authenticateWithApiKey m apiKey =
     (case i_authenticateWithApiKey_try m apiKey of
        (Inr result, m1) \<Rightarrow> (Inr result, m1)
      | (Inl error, m1) \<Rightarrow>
          (let m2 = m1\<lparr>i_state := (i_state m1)\<lparr>lastError := Some (as_Error error),
                                                  authenticated := False, st_token := None\<rparr>\<rparr>
           in case i_AuthState FAILED of
                Inl e \<Rightarrow> (Inl e, m2)
              | Inr st \<Rightarrow>
                  (Inr \<lparr>success = False, res_method = Some API_KEY, res_token = None,
                        res_state = st, res_error = Some (error_message error)\<rparr>, m2)))"

section \<open>Authentication manager of auth/manager\<close>

text \<open>
  The manager of \<^verbatim>\<open>auth/manager.ts\<close> is a state machine over \<open>AuthState\<close>. Its
  \<^verbatim>\<open>emit\<close> calls are recorded in the list \<open>emitted\<close>; its refresh timer is a handle
  into the table of pending timeouts of the runtime, each with its delay in milliseconds.
\<close>

record ManagerConfig =
  apiKey :: "string option"
  oauth :: OAuthConfig
  preferredMethod :: "AuthMethod option"
  autoRefresh :: bool
  tokenRefreshThreshold :: int
  maxRetryAttempts :: int

datatype auth_event =
    STATE_CHANGED AuthState
  | LOGGED_IN AuthMethod
  | LOGGED_OUT
  | TOKEN_REFRESHED
  | ERROR_EVENT "js_value option"

record AuthManager =
  state :: AuthState
  tokenStorage :: "string \<rightharpoonup> AuthToken"
  currentToken :: "AuthToken option"
  refreshTimer :: "nat option"
  config :: ManagerConfig
  emitted :: "auth_event list"

record timers =
  pending :: "(nat \<times> int) list"
  next_handle :: nat

definition tokenKey :: string where
  "tokenKey = ''default''"

definition MAX_SAFE_INTEGER :: int where
  "MAX_SAFE_INTEGER = 9007199254740991"

text \<open>
  \<^verbatim>\<open>setTimeout\<close> of Node: a delay below 1 ms or above \<open>TIMEOUT_MAX\<close> is replaced
  by 1 ms. \<open>pending\<close> holds the delay the timer is armed with.
\<close>

definition TIMEOUT_MAX :: int where
  "TIMEOUT_MAX = 2147483647"

definition setTimeout :: "int \<Rightarrow> timers \<Rightarrow> nat \<times> timers" where
  "setTimeout ms t =
     (let after = (if ms < 1 \<or> TIMEOUT_MAX < ms then 1 else ms)
      in (next_handle t,
          \<lparr>pending = (next_handle t, after) # pending t,
           next_handle = Suc (next_handle t)\<rparr>))"

definition clearTimeout :: "nat \<Rightarrow> timers \<Rightarrow> timers" where
  "clearTimeout h t = t\<lparr>pending := filter (\<lambda>p. fst p \<noteq> h) (pending t)\<rparr>"

definition emit :: "auth_event \<Rightarrow> AuthManager \<Rightarrow> AuthManager" where
  "emit e m = m\<lparr>emitted := emitted m @ [e]\<rparr>"

definition setState :: "AuthState \<Rightarrow> AuthManager \<Rightarrow> AuthManager" where
  "setState newState m =
     (if state m \<noteq> newState then emit (STATE_CHANGED newState) (m\<lparr>state := newState\<rparr>)
      else m)"

definition isAuthenticated :: "AuthManager \<Rightarrow> bool" where
  "isAuthenticated m \<longleftrightarrow> state m = AUTHENTICATED \<and> currentToken m \<noteq> None"

definition getAuthorizationHeader :: "AuthManager \<Rightarrow> string option" where
  "getAuthorizationHeader m =
     (case currentToken m of
        None \<Rightarrow> None
      | Some t \<Rightarrow> Some (tokenType t @ '' '' @ accessToken t))"

definition held_refreshToken :: "AuthManager \<Rightarrow> string option" where
  "held_refreshToken m =
     (case currentToken m of None \<Rightarrow> None | Some t \<Rightarrow> refreshToken t)"

definition scheduleTokenRefresh ::
  "int \<Rightarrow> AuthManager \<times> timers \<Rightarrow> AuthManager \<times> timers" where
  "scheduleTokenRefresh now_ms mt =
     (let m = fst mt; t = snd mt;
          cleared = (case refreshTimer m of
                       Some h \<Rightarrow> (m\<lparr>refreshTimer := None\<rparr>, clearTimeout h t)
                     | None \<Rightarrow> (m, t));
          m1 = fst cleared; t1 = snd cleared
      in if \<not> truthy (held_refreshToken m1) then (m1, t1)
         else
           (let now = now_ms div 1000;
                expiresIn = expiresAt (the (currentToken m1)) - now;
                refreshIn = max 0 (expiresIn - tokenRefreshThreshold (config m1));
                armed = setTimeout (refreshIn * 1000) t1
            in (m1\<lparr>refreshTimer := Some (fst armed)\<rparr>, snd armed)))"

text \<open>
  \<open>refreshToken\<close> of the manager; the first component is the error it throws, if any.
\<close>

definition m_refreshToken ::
  "oauth_env \<Rightarrow> AuthManager \<times> timers \<Rightarrow> js_value option \<times> AuthManager \<times> timers" where
  "m_refreshToken env mt =
     (let m = fst mt; t = snd mt
      in if \<not> truthy (held_refreshToken m) then
           (Some (Error ''No refresh token available''), m, t)
         else
           (let m1 = setState REFRESHING m
            in case refreshOAuthToken env (the (held_refreshToken m1)) (oauth (config m1)) of
                 Inr newToken \<Rightarrow>
                   (let m2 = m1\<lparr>currentToken := Some newToken,
                                tokenStorage := (tokenStorage m1)(tokenKey \<mapsto> newToken)\<rparr>;
                        m3 = emit TOKEN_REFRESHED (setState AUTHENTICATED m2)
                    in if autoRefresh (config m3)
                       then (None, scheduleTokenRefresh (date_now env) (m3, t))
                       else (None, m3, t))
               | Inl error \<Rightarrow>
                   (Some error, emit (ERROR_EVENT (Some error)) (setState FAILED m1), t)))"

definition authenticateWithApiKey :: "AuthManager \<Rightarrow> AuthResult" where
  "authenticateWithApiKey m =
     (if \<not> truthy (apiKey (config m)) then
        \<lparr>success = False, res_method = None, res_token = None, res_state = FAILED,
         res_error = Some ''No API key available''\<rparr>
      else
        \<lparr>success = True, res_method = Some API_KEY,
         res_token = Some \<lparr>accessToken = the (apiKey (config m)), refreshToken = None,
                           expiresAt = MAX_SAFE_INTEGER, tokenType = ''Bearer'',
                           scope = ''all'', id_field = None\<rparr>,
         res_state = AUTHENTICATED, res_error = None\<rparr>)"

definition authenticate ::
  "oauth_env \<Rightarrow> AuthMethod option \<Rightarrow> AuthManager \<times> timers \<Rightarrow>
     AuthResult \<times> (AuthManager \<times> timers) \<times> effect list" where
  "authenticate env method mt =
     (let m = fst mt; t = snd mt;
          authMethod = (case method of
                          Some a \<Rightarrow> a
                        | None \<Rightarrow>
                            (case preferredMethod (config m) of
                               Some a \<Rightarrow> a
                             | None \<Rightarrow> (if truthy (apiKey (config m)) then API_KEY
                                         else OAUTH)));
          m1 = setState AUTHENTICATING m;
          r = (if authMethod = API_KEY then (authenticateWithApiKey m1, [])
               else performOAuthFlow env (oauth (config m1)));
          result = fst r
      in if success result \<and> res_token result \<noteq> None then
           (let token = the (res_token result);
                m2 = m1\<lparr>currentToken := Some token,
                        tokenStorage := (tokenStorage m1)(tokenKey \<mapsto> token)\<rparr>;
                m3 = emit (LOGGED_IN authMethod) (setState AUTHENTICATED m2)
            in if autoRefresh (config m3) \<and> truthy (refreshToken token)
               then (result, scheduleTokenRefresh (date_now env) (m3, t), snd r)
               else (result, (m3, t), snd r))
         else
           (result,
            (emit (ERROR_EVENT (map_option Other (res_error result))) (setState FAILED m1), t),
            snd r))"

section \<open>Example worlds\<close>

text \<open>
  Concrete inputs at which the theorems below are evaluated: a token endpoint that always
  gives the same answer (\<open>answering\<close>) or is unreachable (\<open>offline\<close>), a random source
  whose first 64 draws are 0 and whose later draws are 1, a manager of each kind holding
  an OAuth credential, an operation that fails at its first \<open>n\<close> invocations
  (\<open>fails_first\<close>), a scheduler that always lets the first running worker finish
  (\<open>in_order\<close>) and one that lets the second finish (\<open>last_first\<close>).
\<close>

definition example_response :: "string option \<Rightarrow> http_response" where
  "example_response rt =
     \<lparr>ok = True, text_body = [],
      json_body = Inr \<lparr>access_token = ''at-2'', refresh_token = rt, expires_in = Some 7200,
                       token_type = None, scope_field = None\<rparr>\<rparr>"

definition invalid_grant_response :: http_response where
  "invalid_grant_response =
     \<lparr>ok = False, text_body = ''invalid_grant'', json_body = Inl (Error ''not read'')\<rparr>"

definition example_env :: "(http_request \<Rightarrow> js_value + http_response) \<Rightarrow> oauth_env" where
  "example_env f =
     \<lparr>random_draw = (\<lambda>k. if k < 64 then 0 else 1), url_valid = (\<lambda>_. True),
      open_browser = (\<lambda>_. None), fetch = f, date_now = 5000\<rparr>"

definition example_config :: OAuthConfig where
  "example_config = DEFAULT_OAUTH_CONFIG\<lparr>usePkce := False\<rparr>"

definition example_token :: AuthToken where
  "example_token =
     \<lparr>accessToken = ''at-1'', refreshToken = Some ''rt-1'', expiresAt = 1000,
      tokenType = ''Bearer'', scope = ''all'', id_field = None\<rparr>"

definition example_manager :: AuthManager where
  "example_manager =
     \<lparr>state = AUTHENTICATED, tokenStorage = [tokenKey \<mapsto> example_token],
      currentToken = Some example_token, refreshTimer = Some 0,
      config = \<lparr>apiKey = Some ''sk-ant-api-key'', oauth = example_config,
                preferredMethod = None, autoRefresh = True, tokenRefreshThreshold = 300,
                maxRetryAttempts = 3\<rparr>,
      emitted = []\<rparr>"

definition example_timers :: timers where
  "example_timers = \<lparr>pending = [(0, 695000)], next_handle = 1\<rparr>"

definition example_index_manager :: IndexAuthManager where
  "example_index_manager =
     \<lparr>i_config = DEFAULT_AUTH_CONFIG,
      i_tokenStorage = [AUTH_STORAGE_KEY \<mapsto> example_token],
      i_state = \<lparr>initialized = True, authenticated = True, st_token = Some example_token,
                 st_method = Some OAUTH, lastError = None\<rparr>\<rparr>"

definition answering :: "http_response \<Rightarrow> http_request \<Rightarrow> js_value + http_response" where
  "answering response request = Inr response"

definition offline :: "js_value \<Rightarrow> http_request \<Rightarrow> js_value + http_response" where
  "offline e request = Inl e"

definition no_locale :: "int \<Rightarrow> string" where
  "no_locale ms = []"

definition fails_first :: "nat \<Rightarrow> nat \<Rightarrow> js_value + nat" where
  "fails_first n k = (if k < n then Inl (Error ''ECONNRESET'') else Inr 200)"

definition quiet_onRetry :: "js_value \<Rightarrow> int \<Rightarrow> js_value option" where
  "quiet_onRetry e attempt = None"

definition never_retryable :: "js_value \<Rightarrow> bool" where
  "never_retryable e = False"

definition throwing_onRetry :: "js_value \<Rightarrow> int \<Rightarrow> js_value option" where
  "throwing_onRetry e attempt = Some (Error ''observer failed'')"

definition throws_string_first :: "nat \<Rightarrow> nat \<Rightarrow> js_value + nat" where
  "throws_string_first n k = (if k < n then Inl (Other ''timeout'') else Inr 200)"

definition fail_at_zero_and_one :: "nat \<Rightarrow> nat \<Rightarrow> js_value + nat" where
  "fail_at_zero_and_one x i =
     (if i = 0 then Inl (Error ''item 0 failed'')
      else if i = 1 then Inl (Error ''item 1 failed'')
      else Inr (x + i))"

definition last_first :: "nat \<Rightarrow> nat" where
  "last_first k = 1"

definition mid_jitter :: "int \<Rightarrow> real" where
  "mid_jitter attempt = 1 / 2"

definition in_order :: "nat \<Rightarrow> nat" where
  "in_order k = 0"

definition add_index :: "nat \<Rightarrow> nat \<Rightarrow> js_value + nat" where
  "add_index x i = Inr (x + i)"

definition fail_at_one :: "nat \<Rightarrow> nat \<Rightarrow> js_value + nat" where
  "fail_at_one x i = (if i = 1 then Inl (Error ''item 1 failed'') else Inr (x + i))"

section \<open>Properties of the token helpers\<close>

lemma js_trim_no_outer_whitespace:
  assumes "s = [] \<or> (\<not> js_whitespace (hd s) \<and> \<not> js_whitespace (last s))"
  shows "js_trim s = s"
proof (cases "s = []")
  case True
  then show ?thesis by (simp add: js_trim_def)
next
  case False
  with assms have h: "\<not> js_whitespace (hd s)" and l: "\<not> js_whitespace (last s)" by auto
  from False h have "dropWhile js_whitespace s = s"
    by (cases s) auto
  moreover from False l have "dropWhile js_whitespace (rev s) = rev s"
    by (cases "rev s") (auto simp: last_rev hd_rev dest: arg_cong [where f = hd])
  ultimately show ?thesis by (simp add: js_trim_def)
qed

lemma js_substring_from_drop:
  "0 \<le> k \<Longrightarrow> js_substring_from s k = drop (nat k) s"
  by (auto simp: js_substring_from_def js_substring_def Let_def min_def max_def)

text \<open>
  C10. For a token whose type is \<open>Bearer\<close> and whose access token has neither leading nor
  trailing whitespace, extracting the token from the header that
  \<open>createAuthorizationHeader\<close> builds returns exactly the access token; and the empty
  header yields \<open>null\<close>.
\<close>

theorem header_roundtrip:
  "(tokenType token = ''Bearer'' \<and>
    (accessToken token = [] \<or>
     (\<not> js_whitespace (hd (accessToken token)) \<and> \<not> js_whitespace (last (accessToken token))))
    \<longrightarrow> extractTokenFromHeader (createAuthorizationHeader token) = Some (accessToken token))
   \<and> extractTokenFromHeader [] = None"
proof (intro conjI impI)
  assume a: "tokenType token = ''Bearer'' \<and>
    (accessToken token = [] \<or>
     (\<not> js_whitespace (hd (accessToken token)) \<and> \<not> js_whitespace (last (accessToken token))))"
  then have hdr: "createAuthorizationHeader token = ''Bearer '' @ accessToken token"
    by (simp add: createAuthorizationHeader_def)
  have "js_substring_from (''Bearer '' @ accessToken token) 7 = accessToken token"
    by (simp add: js_substring_from_drop)
  moreover have "js_trim (accessToken token) = accessToken token"
    using a by (intro js_trim_no_outer_whitespace) simp
  ultimately show "extractTokenFromHeader (createAuthorizationHeader token) = Some (accessToken token)"
    by (simp add: hdr extractTokenFromHeader_def js_startsWith_def)
next
  show "extractTokenFromHeader [] = None"
    by (simp add: extractTokenFromHeader_def)
qed

theorem header_roundtrip_witness:
  "tokenType \<lparr>accessToken = ''sk-ant-12345'', refreshToken = None, expiresAt = 0,
               tokenType = ''Bearer'', scope = ''all'', id_field = None\<rparr> = ''Bearer''
   \<and> \<not> js_whitespace (hd ''sk-ant-12345'') \<and> \<not> js_whitespace (last ''sk-ant-12345'')
   \<and> extractTokenFromHeader (createAuthorizationHeader
        \<lparr>accessToken = ''sk-ant-12345'', refreshToken = None, expiresAt = 0,
         tokenType = ''Bearer'', scope = ''all'', id_field = None\<rparr>) = Some ''sk-ant-12345''"
  using header_roundtrip [of "\<lparr>accessToken = ''sk-ant-12345'', refreshToken = None, expiresAt = 0,
               tokenType = ''Bearer'', scope = ''all'', id_field = None\<rparr>"]
  by (simp add: js_whitespace_def)

text \<open>
  C9. The display string for an access token of eight characters shows the first four
  and the last four characters, which together are the whole token.
\<close>

theorem getTokenDetails_short_token:
  "getTokenDetails no_locale 0
     \<lparr>accessToken = ''abcdefgh'', refreshToken = None, expiresAt = 0,
      tokenType = ''Bearer'', scope = [], id_field = None\<rparr> ''accessToken''
   = Some ''abcd...efgh''"
  by (simp add: getTokenDetails_def js_substring_def js_substring_from_def Let_def)


section \<open>Properties of the OAuth flow\<close>

lemma awaitCallback_no_fetch:
  "\<not> list_ex is_Fetch (snd (awaitCallback env cfg))"
  by (auto simp: awaitCallback_def Let_def is_Fetch_def split: sum.splits option.splits prod.splits)

lemma example_callback:
  "awaitCallback (example_env (offline (Error ''unreachable''))) example_config =
     (Inr ([], replicate 32 CHR ''A'', replicate 32 CHR ''A'', replicate 32 CHR ''B''),
      [OpenBrowser \<lparr>base = ''https://auth.anthropic.com/oauth2/auth'',
         searchParams =
           [(''client_id'', ''claude-code-cli''),
            (''redirect_uri'', ''http://localhost:3000/callback''),
            (''response_type'', ''code''),
            (''state'', replicate 32 CHR ''A''),
            (''scope'', ''anthropic.claude'')]\<rparr>])"
  by code_simp

text \<open>
  C6 (as amended). When the token endpoint answers a refresh request successfully, the new
  credential keeps the original refresh token if the response has no \<open>refresh_token\<close> or
  an empty one, and takes the response's \<open>refresh_token\<close> if it is non-empty.
\<close>

theorem refreshOAuthToken_refresh_token:
  assumes "fetch env \<lparr>url = tokenEndpoint cfg, http_method = ''POST'',
                      headers = token_headers,
                      body = client_params cfg @
                        [(''grant_type'', ''refresh_token''), (''refresh_token'', rt)]\<rparr>
           = Inr response"
    and "ok response"
    and "json_body response = Inr data"
  shows "\<exists>token. refreshOAuthToken env rt cfg = Inr token \<and>
           (\<not> truthy (refresh_token data) \<longrightarrow> refreshToken token = Some rt) \<and>
           (truthy (refresh_token data) \<longrightarrow> refreshToken token = refresh_token data)"
  using assms
  by (cases "refresh_token data") (simp_all add: refreshOAuthToken_def refreshOAuthToken_try_def)

theorem refreshOAuthToken_refresh_token_witness:
  "(\<exists>token. refreshOAuthToken (example_env (answering (example_response None))) ''rt-1''
              example_config = Inr token \<and> refreshToken token = Some ''rt-1'')
   \<and> (\<exists>token. refreshOAuthToken (example_env (answering (example_response (Some ''rt-2''))))
              ''rt-1'' example_config = Inr token \<and> refreshToken token = Some ''rt-2'')"
  using refreshOAuthToken_refresh_token
          [of "example_env (answering (example_response None))" example_config "''rt-1''"
              "example_response None"
              "\<lparr>access_token = ''at-2'', refresh_token = None, expires_in = Some 7200,
                token_type = None, scope_field = None\<rparr>"]
        refreshOAuthToken_refresh_token
          [of "example_env (answering (example_response (Some ''rt-2'')))" example_config "''rt-1''"
              "example_response (Some ''rt-2'')"
              "\<lparr>access_token = ''at-2'', refresh_token = Some ''rt-2'', expires_in = Some 7200,
                token_type = None, scope_field = None\<rparr>"]
  by (simp add: example_env_def example_response_def answering_def)

theorem refreshOAuthToken_empty_refresh_token_counterexample:
  "refreshOAuthToken
     (example_env (answering \<lparr>ok = True, text_body = [],
        json_body = Inr \<lparr>access_token = ''at-2'', refresh_token = Some [],
                         expires_in = Some 7200, token_type = None, scope_field = None\<rparr>\<rparr>))
     ''rt-1'' example_config
   = Inr \<lparr>accessToken = ''at-2'', refreshToken = Some ''rt-1'', expiresAt = 7205,
          tokenType = ''Bearer'', scope = [], id_field = None\<rparr>"
  by (simp add: refreshOAuthToken_def refreshOAuthToken_try_def example_env_def answering_def)


text \<open>
  C1. If the state received in the callback differs from the state generated at the start
  of the flow, the flow raises an error of the Authentication category, returns an
  unsuccessful result in state \<open>FAILED\<close>, and makes no request to the token endpoint.
\<close>

theorem oauth_state_mismatch_no_exchange:
  assumes "awaitCallback env cfg = (Inr (codeVerifier, sent, code, received), tr)"
    and "sent \<noteq> received"
  shows "performOAuthFlow_try env cfg =
           (Inl (UserError ''OAuth state mismatch. Authentication may have been tampered with''
                   AUTHENTICATION
                   (Some ''Try the authentication process again. If the issue persists, contact support.'')
                   None), tr)
         \<and> performOAuthFlow env cfg =
           (\<lparr>success = False, res_method = Some OAUTH, res_token = None, res_state = FAILED,
             res_error = Some ''OAuth state mismatch. Authentication may have been tampered with''\<rparr>,
            tr)
         \<and> \<not> list_ex is_Fetch (snd (performOAuthFlow env cfg))"
proof -
  have t: "performOAuthFlow_try env cfg =
           (Inl (UserError ''OAuth state mismatch. Authentication may have been tampered with''
                   AUTHENTICATION
                   (Some ''Try the authentication process again. If the issue persists, contact support.'')
                   None), tr)"
    using assms by (simp add: performOAuthFlow_try_def createUserError_def)
  have f: "performOAuthFlow env cfg =
           (\<lparr>success = False, res_method = Some OAUTH, res_token = None, res_state = FAILED,
             res_error = Some ''OAuth state mismatch. Authentication may have been tampered with''\<rparr>,
            tr)"
    by (simp add: performOAuthFlow_def t)
  have "tr = snd (awaitCallback env cfg)" using assms(1) by simp
  then have "\<not> list_ex is_Fetch tr" using awaitCallback_no_fetch by simp
  with t f show ?thesis by simp
qed

theorem oauth_state_mismatch_no_exchange_witness:
  "awaitCallback (example_env (offline (Error ''unreachable''))) example_config =
     (Inr ([], replicate 32 CHR ''A'', replicate 32 CHR ''A'', replicate 32 CHR ''B''),
      [OpenBrowser \<lparr>base = ''https://auth.anthropic.com/oauth2/auth'',
         searchParams =
           [(''client_id'', ''claude-code-cli''),
            (''redirect_uri'', ''http://localhost:3000/callback''),
            (''response_type'', ''code''),
            (''state'', replicate 32 CHR ''A''),
            (''scope'', ''anthropic.claude'')]\<rparr>])
   \<and> replicate 32 CHR ''A'' \<noteq> replicate 32 CHR ''B''
   \<and> success (fst (performOAuthFlow (example_env (offline (Error ''unreachable'')))
                      example_config)) = False
   \<and> res_state (fst (performOAuthFlow (example_env (offline (Error ''unreachable'')))
                        example_config)) = FAILED
   \<and> \<not> list_ex is_Fetch (snd (performOAuthFlow (example_env (offline (Error ''unreachable'')))
                                  example_config))"
proof -
  have ne: "replicate 32 CHR ''A'' \<noteq> replicate 32 CHR ''B''" by code_simp
  show ?thesis
    using oauth_state_mismatch_no_exchange [OF example_callback ne] example_callback ne
    by (simp add: is_Fetch_def)
qed


section \<open>Properties of the managers\<close>

lemma example_refresh_fails:
  "refreshOAuthToken (example_env (answering invalid_grant_response)) ''rt-1'' example_config =
     Inl (UserError ''Failed to refresh authentication token'' AUTHENTICATION
            (Some ''Try logging in again with the --login flag.'')
            (Some (UserError ''Failed to refresh token: invalid_grant'' AUTHENTICATION
                     (Some ''Try logging in again. Your session may have expired.'') None)))"
  by (simp add: refreshOAuthToken_def refreshOAuthToken_try_def example_env_def
        invalid_grant_response_def createUserError_def answering_def)

text \<open>
  What each manager does when the refresh exchange fails. The manager of auth/index
  records the error, clears the credential from memory and from the token store and is no
  longer authenticated. The manager of auth/manager moves to \<open>FAILED\<close>, emits the error
  and rethrows it; it leaves \<open>currentToken\<close> and the token store as they were.
\<close>

lemma i_refreshToken_failure:
  assumes "truthy (i_held_refreshToken im)"
    and "refreshOAuthToken env (the (i_held_refreshToken im))
           (case cfg_oauth (i_config im) of Some c \<Rightarrow> c | None \<Rightarrow> DEFAULT_OAUTH_CONFIG) = Inl e"
  shows "i_refreshToken env im =
      (False,
       im\<lparr>i_state := (i_state im)\<lparr>lastError := Some (as_Error e),
                                   st_token := None, authenticated := False\<rparr>,
          i_tokenStorage := (i_tokenStorage im)(AUTH_STORAGE_KEY := None)\<rparr>)"
  using assms by (simp add: i_refreshToken_def Let_def)

lemma m_refreshToken_failure:
  assumes "truthy (held_refreshToken m)"
    and "refreshOAuthToken env (the (held_refreshToken m)) (oauth (config m)) = Inl e"
  shows "m_refreshToken env (m, t) =
      (Some e, emit (ERROR_EVENT (Some e)) (setState FAILED (setState REFRESHING m)), t)"
proof -
  have h: "held_refreshToken (setState REFRESHING m) = held_refreshToken m"
    "oauth (config (setState REFRESHING m)) = oauth (config m)"
    by (simp_all add: setState_def emit_def held_refreshToken_def)
  from assms show ?thesis
    by (simp add: m_refreshToken_def Let_def h)
qed

lemma m_refreshToken_failure_keeps_credential:
  assumes "truthy (held_refreshToken m)"
    and "refreshOAuthToken env (the (held_refreshToken m)) (oauth (config m)) = Inl e"
  shows "state (fst (snd (m_refreshToken env (m, t)))) = FAILED"
    and "currentToken (fst (snd (m_refreshToken env (m, t)))) = currentToken m"
    and "tokenStorage (fst (snd (m_refreshToken env (m, t)))) = tokenStorage m"
    and "getAuthorizationHeader (fst (snd (m_refreshToken env (m, t)))) = getAuthorizationHeader m"
  by (simp_all add: m_refreshToken_failure [OF assms] setState_def emit_def
        getAuthorizationHeader_def)

text \<open>
  C3. A manager of auth/manager that holds the credential \<open>at-1\<close>/\<open>rt-1\<close>, in memory and
  in the token store, refreshes against a token endpoint that answers \<open>invalid_grant\<close>.
  Afterwards it is in state \<open>FAILED\<close> and not authenticated, but the credential is still
  held in memory and in the token store, and the authorization header is still built
  from it.
\<close>

theorem refresh_failure_keeps_credential:
  "state (fst (snd (m_refreshToken (example_env (answering invalid_grant_response))
                      (example_manager, example_timers)))) = FAILED
   \<and> \<not> isAuthenticated (fst (snd (m_refreshToken (example_env (answering invalid_grant_response))
                                      (example_manager, example_timers))))
   \<and> currentToken (fst (snd (m_refreshToken (example_env (answering invalid_grant_response))
                             (example_manager, example_timers)))) = Some example_token
   \<and> tokenStorage (fst (snd (m_refreshToken (example_env (answering invalid_grant_response))
                               (example_manager, example_timers)))) tokenKey = Some example_token
   \<and> getAuthorizationHeader
        (fst (snd (m_refreshToken (example_env (answering invalid_grant_response))
                     (example_manager, example_timers)))) = Some ''Bearer at-1''"
proof -
  have h: "truthy (held_refreshToken example_manager)"
    "the (held_refreshToken example_manager) = ''rt-1''"
    "oauth (config example_manager) = example_config"
    by (simp_all add: held_refreshToken_def example_manager_def example_token_def)
  have f: "refreshOAuthToken (example_env (answering invalid_grant_response))
             (the (held_refreshToken example_manager)) (oauth (config example_manager)) =
           Inl (UserError ''Failed to refresh authentication token'' AUTHENTICATION
            (Some ''Try logging in again with the --login flag.'')
            (Some (UserError ''Failed to refresh token: invalid_grant'' AUTHENTICATION
                     (Some ''Try logging in again. Your session may have expired.'') None)))"
    by (simp add: h example_refresh_fails)
  show ?thesis
    unfolding m_refreshToken_failure [OF h(1) f]
    by (simp add: setState_def emit_def isAuthenticated_def getAuthorizationHeader_def
          example_manager_def example_token_def)
qed

text \<open>
  The call of \<open>authenticateWithApiKey\<close> of auth/index never returns a result: whatever
  the key, building the result throws. After a key that passes the validation the token
  store holds the new credential, but the status holds none and is not authenticated.
\<close>

lemma i_authenticateWithApiKey_throws:
  "fst (i_authenticateWithApiKey im k) = Inl (Error ''AuthState is not defined'')"
  by (simp add: i_authenticateWithApiKey_def i_authenticateWithApiKey_try_def i_AuthState_def
        Let_def)

lemma i_authenticateWithApiKey_valid_key:
  assumes "k \<noteq> []" and "10 \<le> length (js_trim k)"
  shows "i_tokenStorage (snd (i_authenticateWithApiKey im k)) AUTH_STORAGE_KEY =
           Some \<lparr>accessToken = k, refreshToken = None, expiresAt = 0,
                 tokenType = ''Bearer'', scope = ''anthropic.api'', id_field = None\<rparr>"
    and "st_token (i_state (snd (i_authenticateWithApiKey im k))) = None"
    and "\<not> i_isAuthenticated (snd (i_authenticateWithApiKey im k))"
  using assms
  by (simp_all add: i_authenticateWithApiKey_def i_authenticateWithApiKey_try_def
        i_AuthState_def Let_def i_isAuthenticated_def)

text \<open>
  The manager of auth/manager imports the enumeration; with a non-empty configured API
  key its authentication succeeds, with a credential that has no refresh token and
  \<open>expiresAt = Number.MAX_SAFE_INTEGER\<close>.
\<close>

lemma authenticate_with_api_key:
  assumes "truthy (apiKey (config m))"
  shows "fst (authenticate env (Some API_KEY) (m, t)) =
          \<lparr>success = True, res_method = Some API_KEY,
           res_token = Some \<lparr>accessToken = the (apiKey (config m)), refreshToken = None,
                             expiresAt = MAX_SAFE_INTEGER, tokenType = ''Bearer'',
                             scope = ''all'', id_field = None\<rparr>,
           res_state = AUTHENTICATED, res_error = None\<rparr>"
    and "isAuthenticated (fst (fst (snd (authenticate env (Some API_KEY) (m, t)))))"
proof -
  have c: "config (setState AUTHENTICATING m) = config m"
    by (simp add: setState_def emit_def)
  define tok where "tok = \<lparr>accessToken = the (apiKey (config m)), refreshToken = None,
                             expiresAt = MAX_SAFE_INTEGER, tokenType = ''Bearer'',
                             scope = ''all'', id_field = None\<rparr>"
  have r: "authenticateWithApiKey (setState AUTHENTICATING m) =
          \<lparr>success = True, res_method = Some API_KEY, res_token = Some tok,
           res_state = AUTHENTICATED, res_error = None\<rparr>"
    using assms by (simp add: authenticateWithApiKey_def c tok_def)
  have au: "authenticate env (Some API_KEY) (m, t) =
      (\<lparr>success = True, res_method = Some API_KEY, res_token = Some tok,
        res_state = AUTHENTICATED, res_error = None\<rparr>,
       (emit (LOGGED_IN API_KEY)
          (setState AUTHENTICATED
             ((setState AUTHENTICATING m)
                \<lparr>currentToken := Some tok,
                 tokenStorage := (tokenStorage (setState AUTHENTICATING m))(tokenKey \<mapsto> tok)\<rparr>)),
        t), [])"
    by (simp add: authenticate_def Let_def r tok_def)
  show "fst (authenticate env (Some API_KEY) (m, t)) =
          \<lparr>success = True, res_method = Some API_KEY,
           res_token = Some \<lparr>accessToken = the (apiKey (config m)), refreshToken = None,
                             expiresAt = MAX_SAFE_INTEGER, tokenType = ''Bearer'',
                             scope = ''all'', id_field = None\<rparr>,
           res_state = AUTHENTICATED, res_error = None\<rparr>"
    by (simp add: au tok_def)
  show "isAuthenticated (fst (fst (snd (authenticate env (Some API_KEY) (m, t)))))"
    by (simp add: au isAuthenticated_def setState_def emit_def)
qed

text \<open>
  C4. A fresh manager of auth/index authenticates with the API key \<open>sk-ant-api-key\<close>
  (14 characters). The credential is built with no refresh token and \<open>expiresAt = 0\<close>
  and saved in the token store, but the call rejects with the \<^verbatim>\<open>ReferenceError\<close> and the
  manager is not authenticated afterwards.
\<close>

theorem api_key_authentication_throws:
  "fst (i_authenticateWithApiKey (new_IndexAuthManager DEFAULT_AUTH_CONFIG) ''sk-ant-api-key'')
     = Inl (Error ''AuthState is not defined'')
   \<and> i_tokenStorage
       (snd (i_authenticateWithApiKey (new_IndexAuthManager DEFAULT_AUTH_CONFIG) ''sk-ant-api-key''))
       AUTH_STORAGE_KEY
     = Some \<lparr>accessToken = ''sk-ant-api-key'', refreshToken = None, expiresAt = 0,
             tokenType = ''Bearer'', scope = ''anthropic.api'', id_field = None\<rparr>
   \<and> st_token (i_state
       (snd (i_authenticateWithApiKey (new_IndexAuthManager DEFAULT_AUTH_CONFIG) ''sk-ant-api-key'')))
     = None
   \<and> authenticated (i_state
       (snd (i_authenticateWithApiKey (new_IndexAuthManager DEFAULT_AUTH_CONFIG) ''sk-ant-api-key'')))
     = False
   \<and> \<not> i_isAuthenticated
         (snd (i_authenticateWithApiKey (new_IndexAuthManager DEFAULT_AUTH_CONFIG) ''sk-ant-api-key''))"
  by (simp add: i_authenticateWithApiKey_def i_authenticateWithApiKey_try_def i_AuthState_def
        Let_def i_isAuthenticated_def new_IndexAuthManager_def js_trim_def js_whitespace_def)

text \<open>
  C5 (as amended). In auth/index, an API key that is empty or has fewer than ten
  characters after trimming is refused with an error of the Authentication category,
  which is recorded as the last error; the token store is left as it was; the status is
  reset: no credential is held and the manager is not authenticated.
\<close>

theorem short_api_key_rejected:
  assumes "k = [] \<or> length (js_trim k) < 10"
  shows "fst (i_authenticateWithApiKey_try im k) =
           Inl (UserError ''Invalid API key format'' AUTHENTICATION
                  (Some ''Check your API key and try again.'') None)
         \<and> lastError (i_state (snd (i_authenticateWithApiKey im k))) =
             Some (UserError ''Invalid API key format'' AUTHENTICATION
                     (Some ''Check your API key and try again.'') None)
         \<and> i_tokenStorage (snd (i_authenticateWithApiKey im k)) = i_tokenStorage im
         \<and> st_token (i_state (snd (i_authenticateWithApiKey im k))) = None
         \<and> authenticated (i_state (snd (i_authenticateWithApiKey im k))) = False
         \<and> st_method (i_state (snd (i_authenticateWithApiKey im k))) = st_method (i_state im)
         \<and> \<not> i_isAuthenticated (snd (i_authenticateWithApiKey im k))"
  using assms
  by (simp add: i_authenticateWithApiKey_def i_authenticateWithApiKey_try_def i_AuthState_def
        Let_def createUserError_def i_isAuthenticated_def)

theorem short_api_key_rejected_witness:
  "length (js_trim ''  short  '') < 10
   \<and> lastError (i_state (snd (i_authenticateWithApiKey example_index_manager ''  short  ''))) =
       Some (UserError ''Invalid API key format'' AUTHENTICATION
               (Some ''Check your API key and try again.'') None)
   \<and> i_tokenStorage (snd (i_authenticateWithApiKey example_index_manager ''  short  ''))
       AUTH_STORAGE_KEY = Some example_token
   \<and> \<not> i_isAuthenticated (snd (i_authenticateWithApiKey example_index_manager ''  short  ''))"
proof -
  have l: "length (js_trim ''  short  '') < 10"
    by (simp add: js_trim_def js_whitespace_def)
  show ?thesis
    using short_api_key_rejected [of "''  short  ''" example_index_manager] l
    by (simp add: example_index_manager_def)
qed

theorem short_api_key_counterexample:
  "st_token (i_state example_index_manager) = Some example_token
   \<and> st_token (i_state (snd (i_authenticateWithApiKey example_index_manager ''short''))) = None
   \<and> authenticated (i_state example_index_manager) = True
   \<and> authenticated (i_state (snd (i_authenticateWithApiKey example_index_manager ''short''))) = False
   \<and> map_option error_category
        (lastError (i_state (snd (i_authenticateWithApiKey example_index_manager ''short''))))
      = Some (Some AUTHENTICATION)"
  by (simp add: i_authenticateWithApiKey_def i_authenticateWithApiKey_try_def i_AuthState_def
        Let_def createUserError_def example_index_manager_def js_trim_def js_whitespace_def)

text \<open>
  What \<open>scheduleTokenRefresh\<close> does in general: it cancels the timer armed before, if
  any; without a refresh token it arms none; with one it passes
  \<open>max 0 ((expiresAt - now) - tokenRefreshThreshold)\<close> seconds to \<^verbatim>\<open>setTimeout\<close>, which
  arms that delay if it lies between 1 ms and \<open>TIMEOUT_MAX\<close> ms, and 1 ms otherwise.
\<close>

lemma scheduleTokenRefresh_armed:
  assumes "\<forall>h. refreshTimer m = Some h \<longrightarrow> h < next_handle t"
  shows "(truthy (held_refreshToken m) \<longrightarrow>
            refreshTimer (fst (scheduleTokenRefresh now_ms (m, t))) = Some (next_handle t)
          \<and> pending (snd (scheduleTokenRefresh now_ms (m, t))) =
              (next_handle t,
               let ms = 1000 * max 0 ((expiresAt (the (currentToken m)) - now_ms div 1000)
                                      - tokenRefreshThreshold (config m))
               in if ms < 1 \<or> TIMEOUT_MAX < ms then 1 else ms)
              # filter (\<lambda>p. Some (fst p) \<noteq> refreshTimer m) (pending t))
       \<and> (\<not> truthy (held_refreshToken m) \<longrightarrow>
            refreshTimer (fst (scheduleTokenRefresh now_ms (m, t))) = None
          \<and> pending (snd (scheduleTokenRefresh now_ms (m, t))) =
              filter (\<lambda>p. Some (fst p) \<noteq> refreshTimer m) (pending t))
       \<and> (\<forall>h. refreshTimer m = Some h \<longrightarrow>
            h \<notin> fst ` set (pending (snd (scheduleTokenRefresh now_ms (m, t)))))"
proof (cases "refreshTimer m")
  case None
  then show ?thesis
    by (simp add: scheduleTokenRefresh_def Let_def setTimeout_def held_refreshToken_def
          mult.commute)
next
  case (Some h0)
  with assms have lt: "h0 < next_handle t" by simp
  have hr: "held_refreshToken (m\<lparr>refreshTimer := None\<rparr>) = held_refreshToken m"
    by (simp add: held_refreshToken_def)
  show ?thesis
    using Some lt
    by (auto simp: scheduleTokenRefresh_def Let_def setTimeout_def clearTimeout_def hr
          mult.commute)
qed

text \<open>
  C8. At second 5 a manager with threshold 300 schedules the refresh of a credential
  that has a refresh token and expires at second 2592005, thirty days later. The delay
  of the claim is \<open>max 0 ((2592005 - 5) - 300) = 2591700\<close> seconds; the timer that
  replaces the old one is armed with 1 ms.
\<close>

theorem scheduleTokenRefresh_long_lived:
  "truthy (held_refreshToken
             (example_manager\<lparr>currentToken := Some (example_token\<lparr>expiresAt := 2592005\<rparr>)\<rparr>))
   \<and> 1000 * max 0 ((2592005 - 5000 div 1000) - tokenRefreshThreshold (config example_manager))
       = (2591700000 :: int)
   \<and> scheduleTokenRefresh 5000
        (example_manager\<lparr>currentToken := Some (example_token\<lparr>expiresAt := 2592005\<rparr>)\<rparr>,
         example_timers)
     = (example_manager\<lparr>currentToken := Some (example_token\<lparr>expiresAt := 2592005\<rparr>),
                         refreshTimer := Some 1\<rparr>,
        \<lparr>pending = [(1, 1)], next_handle = 2\<rparr>)"
  by (simp add: scheduleTokenRefresh_def Let_def setTimeout_def clearTimeout_def
        held_refreshToken_def example_manager_def example_timers_def example_token_def
        TIMEOUT_MAX_def)


section \<open>Properties of the retry wrapper\<close>

lemma retry_attempt_quiet_callback:
  assumes "\<forall>callback. onRetry opts = Some callback \<longrightarrow> (\<forall>e a. callback e a = None)"
  shows "retry_attempt opts fn random (int a) prev a =
           (fn a, Suc a,
            if a = 0 then [Invoke 0]
            else Sleep (calculateRetryDelay (int a) opts (random (int a))) #
                 (if onRetry opts = None then [] else [OnRetry prev (int a)]) @ [Invoke a])"
  using assms by (cases "onRetry opts") (simp_all add: retry_attempt_def Let_def)

lemma retry_loop_trace:
  fixes fn :: "nat \<Rightarrow> js_value + 'a"
  defines "ev \<equiv> \<lambda>opts random errs a.
                   if a = 0 then [Invoke 0]
                   else Sleep (calculateRetryDelay (int a) opts (random (int a))) #
                        (if onRetry opts = None then []
                         else [OnRetry (as_Error (errs (a - 1))) (int a)]) @ [Invoke a]"
  assumes fails: "\<forall>k<n. fn k = Inl (errs k)"
    and ok: "fn n = Inr v"
    and retr: "\<forall>k<n. case isRetryable opts of
                        Some retryable \<Rightarrow> retryable (as_Error (errs k)) | None \<Rightarrow> True"
    and cb: "\<forall>callback. onRetry opts = Some callback \<longrightarrow> (\<forall>e a. callback e a = None)"
    and nonneg: "0 \<le> maxRetries opts"
    and m: "m = min n (nat (maxRetries opts))"
    and a: "a \<le> m"
    and le: "0 < a \<longrightarrow> prev = as_Error (errs (a - 1))"
  shows "retry_loop opts fn random (int a) prev a =
           (if int n \<le> maxRetries opts then Inr v else Inl (as_Error (errs m)),
            concat (map (ev opts random errs) [a..<Suc m]))"
  using a le
proof (induction "m - a" arbitrary: a prev)
  case 0
  then have am: "a = m" by simp
  have in_range: "int a \<le> maxRetries opts" using am m nonneg by simp
  have att: "retry_attempt opts fn random (int a) prev a = (fn a, Suc a, ev opts random errs a)"
    using 0(3) by (auto simp: retry_attempt_quiet_callback [OF cb] ev_def)
  have one: "concat (map (ev opts random errs) [a..<Suc m]) = ev opts random errs a"
    using am by simp
  show ?case
  proof (cases "int n \<le> maxRetries opts")
    case True
    then have "m = n" using m by simp
    with am ok have "fn a = Inr v" by simp
    then have "retry_loop opts fn random (int a) prev a = (Inr v, ev opts random errs a)"
      using in_range by (subst retry_loop.simps) (simp add: att)
    with True show ?thesis unfolding one by simp
  next
    case False
    then have mm: "maxRetries opts = int m" and "m < n" using m nonneg by auto
    with am fails have "fn a = Inl (errs a)" by simp
    then have "retry_loop opts fn random (int a) prev a =
                 (Inl (as_Error (errs a)), ev opts random errs a)"
      using mm [folded am] by (subst retry_loop.simps) (simp add: att)
    with False am show ?thesis unfolding one by simp
  qed
next
  case (Suc d)
  then have lt: "a < m" by simp
  then have an: "a < n" and aM: "int a < maxRetries opts" using m by auto
  from an fails have f: "fn a = Inl (errs a)" by simp
  from an retr have r: "\<not> (case isRetryable opts of
                            Some retryable \<Rightarrow> \<not> retryable (as_Error (errs a)) | None \<Rightarrow> False)"
    by (auto split: option.splits)
  have att: "retry_attempt opts fn random (int a) prev a = (fn a, Suc a, ev opts random errs a)"
    using Suc(4) by (auto simp: retry_attempt_quiet_callback [OF cb] ev_def)
  have ih: "retry_loop opts fn random (int (Suc a)) (as_Error (errs a)) (Suc a) =
           (if int n \<le> maxRetries opts then Inr v else Inl (as_Error (errs m)),
            concat (map (ev opts random errs) [Suc a..<Suc m]))"
    using Suc(2) lt by (intro Suc(1)) auto
  have up: "concat (map (ev opts random errs) [a..<Suc m]) =
            ev opts random errs a @ concat (map (ev opts random errs) [Suc a..<Suc m])"
    using lt by (simp add: upt_conv_Cons del: upt_Suc)
  have step: "int a + 1 = int (Suc a)" by simp
  have "retry_loop opts fn random (int a) prev a =
          (case retry_loop opts fn random (int (Suc a)) (as_Error (errs a)) (Suc a) of
             (outcome, later) \<Rightarrow> (outcome, ev opts random errs a @ later))"
    using aM f r
    by (subst retry_loop.simps) (simp add: att step del: of_nat_Suc)
  then show ?case unfolding up ih by simp
qed

lemma retry_trace_counts:
  "length (filter is_OnRetry
     (concat (map (\<lambda>a. if a = 0 then [Invoke 0]
                       else Sleep (d a) # (if c then [] else [OnRetry (e a) (int a)]) @ [Invoke a])
                  [0..<Suc k]))) = (if c then 0 else k)"
  "length (filter is_Invoke
     (concat (map (\<lambda>a. if a = 0 then [Invoke 0]
                       else Sleep (d a) # (if c then [] else [OnRetry (e a) (int a)]) @ [Invoke a])
                  [0..<Suc k]))) = Suc k"
  by (cases c; induction k; simp)+

text \<open>
  C2 (as amended). Let the operation fail at its first \<open>n\<close> invocations and succeed at
  the next, let \<open>isRetryable\<close> be absent or accept each of these errors, and let
  \<open>onRetry\<close> be absent or not throw. If \<open>n \<le> maxRetries\<close>, the wrapped call returns the
  success value after \<open>n + 1\<close> invocations; its events are the first invocation and
  then, for each attempt \<open>1..n\<close>, the sleep, then (if \<open>onRetry\<close> is given) \<open>onRetry\<close>
  with the last error and the attempt number, then the invocation: a given \<open>onRetry\<close> is
  called \<open>n\<close> times. If \<open>0 \<le> maxRetries < n\<close>, the operation is invoked
  \<open>maxRetries + 1\<close> times and the last error is raised (as an \<open>Error\<close>: a thrown
  value that is not one is wrapped).
\<close>

theorem withRetry_fails_n_times:
  fixes fn :: "nat \<Rightarrow> js_value + 'a"
  assumes "\<forall>k<n. fn k = Inl (errs k)"
    and "fn n = Inr v"
    and "\<forall>k<n. case p_isRetryable options of
                  Some retryable \<Rightarrow> retryable (as_Error (errs k)) | None \<Rightarrow> True"
    and "\<forall>callback. p_onRetry options = Some callback \<longrightarrow> (\<forall>e a. callback e a = None)"
  shows "(int n \<le> maxRetries (retryOptions options) \<longrightarrow>
            withRetry fn options random =
              (Inr v,
               concat (map (\<lambda>a. if a = 0 then [Invoke 0]
                                else Sleep (calculateRetryDelay (int a) (retryOptions options)
                                              (random (int a))) #
                                     (if p_onRetry options = None then []
                                      else [OnRetry (as_Error (errs (a - 1))) (int a)]) @
                                     [Invoke a])
                           [0..<Suc n]))
          \<and> length (filter is_OnRetry (snd (withRetry fn options random))) =
              (if p_onRetry options = None then 0 else n)
          \<and> length (filter is_Invoke (snd (withRetry fn options random))) = n + 1)
       \<and> (0 \<le> maxRetries (retryOptions options) \<and> maxRetries (retryOptions options) < int n \<longrightarrow>
            withRetry fn options random =
              (Inl (as_Error (errs (nat (maxRetries (retryOptions options))))),
               concat (map (\<lambda>a. if a = 0 then [Invoke 0]
                                else Sleep (calculateRetryDelay (int a) (retryOptions options)
                                              (random (int a))) #
                                     (if p_onRetry options = None then []
                                      else [OnRetry (as_Error (errs (a - 1))) (int a)]) @
                                     [Invoke a])
                           [0..<Suc (nat (maxRetries (retryOptions options)))]))
          \<and> length (filter is_Invoke (snd (withRetry fn options random))) =
              nat (maxRetries (retryOptions options)) + 1)"
proof (intro conjI impI)
  have r: "\<forall>k<n. case isRetryable (retryOptions options) of
                  Some retryable \<Rightarrow> retryable (as_Error (errs k)) | None \<Rightarrow> True"
    and c: "\<forall>callback. onRetry (retryOptions options) = Some callback
                       \<longrightarrow> (\<forall>e a. callback e a = None)"
    and o: "onRetry (retryOptions options) = p_onRetry options"
    using assms(3,4) by (simp_all add: retryOptions_def)
  {
    assume le: "int n \<le> maxRetries (retryOptions options)"
    then have nonneg: "0 \<le> maxRetries (retryOptions options)" by simp
    have m: "n = min n (nat (maxRetries (retryOptions options)))" using le by simp
    have t: "withRetry fn options random =
              (Inr v,
               concat (map (\<lambda>a. if a = 0 then [Invoke 0]
                                else Sleep (calculateRetryDelay (int a) (retryOptions options)
                                              (random (int a))) #
                                     (if p_onRetry options = None then []
                                      else [OnRetry (as_Error (errs (a - 1))) (int a)]) @
                                     [Invoke a])
                           [0..<Suc n]))"
      using retry_loop_trace [OF assms(1,2) r c nonneg m, of 0 "Error ''Unknown error''" random,
                              unfolded o]
            le
      by (simp add: withRetry_def)
    show "withRetry fn options random =
              (Inr v,
               concat (map (\<lambda>a. if a = 0 then [Invoke 0]
                                else Sleep (calculateRetryDelay (int a) (retryOptions options)
                                              (random (int a))) #
                                     (if p_onRetry options = None then []
                                      else [OnRetry (as_Error (errs (a - 1))) (int a)]) @
                                     [Invoke a])
                           [0..<Suc n]))"
      by (rule t)
    show "length (filter is_OnRetry (snd (withRetry fn options random))) =
            (if p_onRetry options = None then 0 else n)"
      unfolding t snd_conv by (rule retry_trace_counts(1))
    show "length (filter is_Invoke (snd (withRetry fn options random))) = n + 1"
      unfolding t snd_conv Suc_eq_plus1 [symmetric] by (rule retry_trace_counts(2))
  }
  {
    assume lt: "0 \<le> maxRetries (retryOptions options) \<and>
                maxRetries (retryOptions options) < int n"
    then have nonneg: "0 \<le> maxRetries (retryOptions options)" by simp
    have m: "nat (maxRetries (retryOptions options)) =
             min n (nat (maxRetries (retryOptions options)))"
      using lt by linarith
    have t: "withRetry fn options random =
              (Inl (as_Error (errs (nat (maxRetries (retryOptions options))))),
               concat (map (\<lambda>a. if a = 0 then [Invoke 0]
                                else Sleep (calculateRetryDelay (int a) (retryOptions options)
                                              (random (int a))) #
                                     (if p_onRetry options = None then []
                                      else [OnRetry (as_Error (errs (a - 1))) (int a)]) @
                                     [Invoke a])
                           [0..<Suc (nat (maxRetries (retryOptions options)))]))"
      using retry_loop_trace [OF assms(1,2) r c nonneg m, of 0 "Error ''Unknown error''" random,
                              unfolded o]
            lt
      by (simp add: withRetry_def)
    show "withRetry fn options random =
              (Inl (as_Error (errs (nat (maxRetries (retryOptions options))))),
               concat (map (\<lambda>a. if a = 0 then [Invoke 0]
                                else Sleep (calculateRetryDelay (int a) (retryOptions options)
                                              (random (int a))) #
                                     (if p_onRetry options = None then []
                                      else [OnRetry (as_Error (errs (a - 1))) (int a)]) @
                                     [Invoke a])
                           [0..<Suc (nat (maxRetries (retryOptions options)))]))"
      by (rule t)
    show "length (filter is_Invoke (snd (withRetry fn options random))) =
            nat (maxRetries (retryOptions options)) + 1"
      unfolding t snd_conv Suc_eq_plus1 [symmetric] by (rule retry_trace_counts(2))
  }
qed

theorem withRetry_fails_n_times_witness:
  "withRetry (fails_first 2)
     \<lparr>p_maxRetries = Some 2, p_initialDelayMs = None, p_maxDelayMs = None, p_backoff = None,
      p_isRetryable = None, p_onRetry = Some quiet_onRetry\<rparr> mid_jitter
   = (Inr 200, [Invoke 0, Sleep 1000, OnRetry (Error ''ECONNRESET'') 1, Invoke 1,
                Sleep 2000, OnRetry (Error ''ECONNRESET'') 2, Invoke 2])
   \<and> withRetry (fails_first 2)
     \<lparr>p_maxRetries = Some 2, p_initialDelayMs = None, p_maxDelayMs = None, p_backoff = None,
      p_isRetryable = None, p_onRetry = None\<rparr> mid_jitter
   = (Inr 200, [Invoke 0, Sleep 1000, Invoke 1, Sleep 2000, Invoke 2])
   \<and> withRetry (fails_first 2)
     \<lparr>p_maxRetries = Some 1, p_initialDelayMs = None, p_maxDelayMs = None, p_backoff = None,
      p_isRetryable = None, p_onRetry = None\<rparr> mid_jitter
   = (Inl (Error ''ECONNRESET''), [Invoke 0, Sleep 1000, Invoke 1])"
  using withRetry_fails_n_times
          [of 2 "fails_first 2" "\<lambda>k. Error ''ECONNRESET''" 200
              "\<lparr>p_maxRetries = Some 2, p_initialDelayMs = None, p_maxDelayMs = None,
                p_backoff = None, p_isRetryable = None, p_onRetry = Some quiet_onRetry\<rparr>"
              mid_jitter]
        withRetry_fails_n_times
          [of 2 "fails_first 2" "\<lambda>k. Error ''ECONNRESET''" 200
              "\<lparr>p_maxRetries = Some 2, p_initialDelayMs = None, p_maxDelayMs = None,
                p_backoff = None, p_isRetryable = None, p_onRetry = None\<rparr>"
              mid_jitter]
        withRetry_fails_n_times
          [of 2 "fails_first 2" "\<lambda>k. Error ''ECONNRESET''" 200
              "\<lparr>p_maxRetries = Some 1, p_initialDelayMs = None, p_maxDelayMs = None,
                p_backoff = None, p_isRetryable = None, p_onRetry = None\<rparr>"
              mid_jitter]
  by (simp add: retryOptions_def calculateRetryDelay_def upt_rec fails_first_def
        quiet_onRetry_def mid_jitter_def)

theorem withRetry_claim_counterexample:
  "withRetry (fails_first 1)
     \<lparr>p_maxRetries = Some 1, p_initialDelayMs = None, p_maxDelayMs = None,
      p_backoff = Some False, p_isRetryable = None, p_onRetry = Some quiet_onRetry\<rparr> mid_jitter
   = (Inr 200, [Invoke 0, Sleep 1000, OnRetry (Error ''ECONNRESET'') 1, Invoke 1])
   \<and> withRetry (fails_first 1)
     \<lparr>p_maxRetries = Some 3, p_initialDelayMs = None, p_maxDelayMs = None,
      p_backoff = Some False, p_isRetryable = Some never_retryable,
      p_onRetry = Some quiet_onRetry\<rparr> mid_jitter
   = (Inl (Error ''ECONNRESET''), [Invoke 0])
   \<and> withRetry (fails_first 1)
     \<lparr>p_maxRetries = Some 1, p_initialDelayMs = None, p_maxDelayMs = None,
      p_backoff = Some False, p_isRetryable = None, p_onRetry = Some throwing_onRetry\<rparr>
     mid_jitter
   = (Inl (Error ''observer failed''),
      [Invoke 0, Sleep 1000, OnRetry (Error ''ECONNRESET'') 1])
   \<and> withRetry (fails_first 1)
     \<lparr>p_maxRetries = Some (- 2), p_initialDelayMs = None, p_maxDelayMs = None,
      p_backoff = Some False, p_isRetryable = None, p_onRetry = None\<rparr> mid_jitter
   = (Inl (Error ''Unknown error''), [])
   \<and> withRetry (throws_string_first 1)
     \<lparr>p_maxRetries = Some 0, p_initialDelayMs = None, p_maxDelayMs = None,
      p_backoff = Some False, p_isRetryable = None, p_onRetry = None\<rparr> mid_jitter
   = (Inl (Error ''timeout''), [Invoke 0])
   \<and> throws_string_first 1 0 = Inl (Other ''timeout'')"
  by (simp add: withRetry_def retryOptions_def retry_loop.simps retry_attempt_def
        calculateRetryDelay_def fails_first_def quiet_onRetry_def never_retryable_def
        throwing_onRetry_def throws_string_first_def)


section \<open>Properties of the bounded-concurrency mapper\<close>

lemma set_remove_nth_distinct:
  assumes "distinct xs" and "p < length xs"
  shows "set (take p xs @ drop (Suc p) xs) = set xs - {xs ! p}"
    and "distinct (take p xs @ drop (Suc p) xs)"
proof -
  have xs: "xs = take p xs @ xs ! p # drop (Suc p) xs"
    using assms(2) by (rule id_take_nth_drop)
  have d: "distinct (take p xs @ xs ! p # drop (Suc p) xs)"
    using assms(1) xs by simp
  then show "distinct (take p xs @ drop (Suc p) xs)" by auto
  have "set xs = set (take p xs @ xs ! p # drop (Suc p) xs)" using xs by simp
  with d show "set (take p xs @ drop (Suc p) xs) = set xs - {xs ! p}" by auto
qed

lemma run_workers_step:
  assumes "active \<noteq> []"
    and "p = sched k mod length active"
    and "index = active ! p"
  shows "fn (items ! index) index = Inl e \<Longrightarrow>
           run_workers sched k fn items results currentIndex active = (Inl e, [index])"
    and "fn (items ! index) index = Inr v \<Longrightarrow> currentIndex < length items \<Longrightarrow>
           run_workers sched k fn items results currentIndex active =
             (fst (run_workers sched (Suc k) fn items (results[index := Some v])
                     (Suc currentIndex) (active[p := currentIndex])),
              index # snd (run_workers sched (Suc k) fn items (results[index := Some v])
                     (Suc currentIndex) (active[p := currentIndex])))"
    and "fn (items ! index) index = Inr v \<Longrightarrow> \<not> currentIndex < length items \<Longrightarrow>
           run_workers sched k fn items results currentIndex active =
             (fst (run_workers sched (Suc k) fn items (results[index := Some v])
                     currentIndex (take p active @ drop (Suc p) active)),
              index # snd (run_workers sched (Suc k) fn items (results[index := Some v])
                     currentIndex (take p active @ drop (Suc p) active)))"
  using assms
  by (subst run_workers.simps; simp add: Let_def split: prod.split)+

lemma run_workers_all_succeed:
  assumes "\<forall>i<length items. fn (items ! i) i = Inr (g i)"
    and "length results = length items"
    and "currentIndex \<le> length items"
    and "distinct active"
    and "\<forall>i\<in>set active. i < currentIndex"
    and "\<forall>i<length items. results ! i =
           (if i < currentIndex \<and> i \<notin> set active then Some (g i) else None)"
    and "active = [] \<longrightarrow> currentIndex = length items"
  shows "fst (run_workers sched k fn items results currentIndex active) =
           Inr (map (\<lambda>i. Some (g i)) [0..<length items])"
  using assms
proof (induction sched k fn items results currentIndex active rule: run_workers.induct)
  case (1 sched k fn items results currentIndex active)
  show ?case
  proof (cases "active = []")
    case True
    with 1(9) have c: "currentIndex = length items" by simp
    have "results = map (\<lambda>i. Some (g i)) [0..<length items]"
      using 1(4) 1(8) True c by (intro nth_equalityI) auto
    with True show ?thesis by (subst run_workers.simps) simp
  next
    case False
    define p where "p = sched k mod length active"
    define index where "index = active ! p"
    have p: "p < length active" using False by (simp add: p_def)
    then have mem: "index \<in> set active" by (simp add: index_def)
    with 1(7) have ic: "index < currentIndex" by simp
    with 1(5) have il: "index < length items" by simp
    with 1(3) have f: "fn (items ! index) index = Inr (g index)" by simp
    show ?thesis
    proof (cases "currentIndex < length items")
      case True
      have notin: "currentIndex \<notin> set active" using 1(7) by auto
      have s: "set (active[p := currentIndex]) = insert currentIndex (set active - {index})"
        using 1(6) p by (simp add: set_update_distinct index_def)
      have d: "distinct (active[p := currentIndex])"
        using 1(6) notin by (simp add: distinct_list_update)
      have r: "\<forall>i<length items. results[index := Some (g index)] ! i =
                 (if i < Suc currentIndex \<and> i \<notin> set (active[p := currentIndex])
                  then Some (g i) else None)"
      proof (intro allI impI)
        fix i assume i: "i < length items"
        show "results[index := Some (g index)] ! i =
                 (if i < Suc currentIndex \<and> i \<notin> set (active[p := currentIndex])
                  then Some (g i) else None)"
        proof (cases "i = index")
          case True
          then show ?thesis using il ic 1(4) s by simp
        next
          case False
          then have "results[index := Some (g index)] ! i = results ! i" by simp
          also have "\<dots> = (if i < currentIndex \<and> i \<notin> set active then Some (g i) else None)"
            using 1(8) i by simp
          also have "\<dots> = (if i < Suc currentIndex \<and> i \<notin> set (active[p := currentIndex])
                            then Some (g i) else None)"
            using False s by auto
          finally show ?thesis .
        qed
      qed
      have ne: "active[p := currentIndex] \<noteq> []" using False by simp
      have "fst (run_workers sched (Suc k) fn items (results[index := Some (g index)])
              (Suc currentIndex) (active[p := currentIndex])) =
            Inr (map (\<lambda>i. Some (g i)) [0..<length items])"
        using 1(3) 1(4) True d s ic 1(7) r ne
        by (intro 1(1) [OF False p_def index_def f True]) auto
      then show ?thesis
        by (simp add: run_workers_step(2) [where fn = fn and items = items and sched = sched and k = k, OF False p_def index_def f True])
    next
      case nlt: False
      have s: "set (take p active @ drop (Suc p) active) = set active - {index}"
        and d: "distinct (take p active @ drop (Suc p) active)"
        using set_remove_nth_distinct [OF 1(6) p] by (simp_all add: index_def)
      have r: "\<forall>i<length items. results[index := Some (g index)] ! i =
                 (if i < currentIndex \<and> i \<notin> set (take p active @ drop (Suc p) active)
                  then Some (g i) else None)"
      proof (intro allI impI)
        fix i assume i: "i < length items"
        show "results[index := Some (g index)] ! i =
                 (if i < currentIndex \<and> i \<notin> set (take p active @ drop (Suc p) active)
                  then Some (g i) else None)"
        proof (cases "i = index")
          case True
          then show ?thesis using il ic 1(4) s by simp
        next
          case False
          then have "results[index := Some (g index)] ! i = results ! i" by simp
          also have "\<dots> = (if i < currentIndex \<and> i \<notin> set active then Some (g i) else None)"
            using 1(8) i by simp
          also have "\<dots> = (if i < currentIndex \<and> i \<notin> set (take p active @ drop (Suc p) active)
                            then Some (g i) else None)"
            using False s by auto
          finally show ?thesis .
        qed
      qed
      have c: "currentIndex = length items" using nlt 1(5) by simp
      have "fst (run_workers sched (Suc k) fn items (results[index := Some (g index)])
              currentIndex (take p active @ drop (Suc p) active)) =
            Inr (map (\<lambda>i. Some (g i)) [0..<length items])"
        using 1(3) 1(4) 1(5) d s 1(7) r c
        by (intro 1(2) [OF False p_def index_def f nlt]) auto
      then show ?thesis
        by (simp add: run_workers_step(3) [where fn = fn and items = items and sched = sched and k = k, OF False p_def index_def f nlt])
    qed
  qed
qed


lemma run_workers_outcome:
  assumes "currentIndex \<le> length items"
    and "distinct active"
    and "\<forall>i\<in>set active. i < currentIndex"
    and "active = [] \<longrightarrow> currentIndex = length items"
  shows "case fst (run_workers sched k fn items results currentIndex active) of
           Inl e \<Rightarrow>
             \<exists>pre j. snd (run_workers sched k fn items results currentIndex active) = pre @ [j]
                    \<and> j < length items \<and> fn (items ! j) j = Inl e
                    \<and> (\<forall>i\<in>set pre. \<exists>v. fn (items ! i) i = Inr v)
         | Inr r \<Rightarrow> \<forall>i. i \<in> set active \<or> (currentIndex \<le> i \<and> i < length items)
                        \<longrightarrow> (\<exists>v. fn (items ! i) i = Inr v)"
  using assms
proof (induction sched k fn items results currentIndex active rule: run_workers.induct)
  case (1 sched k fn items results currentIndex active)
  show ?case
  proof (cases "active = []")
    case True
    with 1(6) show ?thesis by (subst run_workers.simps) auto
  next
    case False
    define p where "p = sched k mod length active"
    define index where "index = active ! p"
    have p: "p < length active" using False by (simp add: p_def)
    then have mem: "index \<in> set active" by (simp add: index_def)
    with 1(5) have ic: "index < currentIndex" by simp
    with 1(3) have il: "index < length items" by simp
    show ?thesis
    proof (cases "fn (items ! index) index")
      case (Inl e)
      have "run_workers sched k fn items results currentIndex active = (Inl e, [index])"
        by (rule run_workers_step(1)
              [where fn = fn and items = items and sched = sched and k = k,
               OF False p_def index_def Inl])
      with Inl il show ?thesis by simp
    next
      case (Inr v)
      define rest where "rest =
        (if currentIndex < length items
         then run_workers sched (Suc k) fn items (results[index := Some v])
                (Suc currentIndex) (active[p := currentIndex])
         else run_workers sched (Suc k) fn items (results[index := Some v])
                currentIndex (take p active @ drop (Suc p) active))"
      have eq: "run_workers sched k fn items results currentIndex active =
                  (fst rest, index # snd rest)"
        using run_workers_step(2)
                [where fn = fn and items = items and sched = sched and k = k,
                 OF False p_def index_def Inr, of currentIndex results]
              run_workers_step(3)
                [where fn = fn and items = items and sched = sched and k = k,
                 OF False p_def index_def Inr, of currentIndex results]
        by (simp add: rest_def)
      have ih: "case fst rest of
                  Inl e \<Rightarrow>
                    \<exists>pre j. snd rest = pre @ [j] \<and> j < length items \<and> fn (items ! j) j = Inl e
                           \<and> (\<forall>i\<in>set pre. \<exists>v. fn (items ! i) i = Inr v)
                | Inr r \<Rightarrow> \<forall>i. (i \<in> set active \<and> i \<noteq> index) \<or>
                               (currentIndex \<le> i \<and> i < length items)
                               \<longrightarrow> (\<exists>v. fn (items ! i) i = Inr v)"
      proof (cases "currentIndex < length items")
        case True
        have notin: "currentIndex \<notin> set active" using 1(5) by auto
        have s: "set (active[p := currentIndex]) = insert currentIndex (set active - {index})"
          using 1(4) p by (simp add: set_update_distinct index_def)
        have d: "distinct (active[p := currentIndex])"
          using 1(4) notin by (simp add: distinct_list_update)
        have ne: "active[p := currentIndex] \<noteq> []" using False by simp
        have h: "case fst rest of
                    Inl e \<Rightarrow>
                      \<exists>pre j. snd rest = pre @ [j] \<and> j < length items \<and> fn (items ! j) j = Inl e
                             \<and> (\<forall>i\<in>set pre. \<exists>v. fn (items ! i) i = Inr v)
                  | Inr r \<Rightarrow> \<forall>i. i \<in> set (active[p := currentIndex]) \<or>
                                 (Suc currentIndex \<le> i \<and> i < length items)
                                 \<longrightarrow> (\<exists>v. fn (items ! i) i = Inr v)"
          unfolding rest_def if_P [OF True]
          using True d s 1(5) ne
          by (intro 1(1) [OF False p_def index_def Inr True]) auto
        show ?thesis
        proof (cases "fst rest")
          case (Inl e)
          with h show ?thesis by simp
        next
          case later: (Inr r)
          with h have all: "\<forall>i. i \<in> set (active[p := currentIndex]) \<or>
                                 (Suc currentIndex \<le> i \<and> i < length items)
                                 \<longrightarrow> (\<exists>v. fn (items ! i) i = Inr v)"
            by simp
          have "\<exists>v. fn (items ! i) i = Inr v"
            if "(i \<in> set active \<and> i \<noteq> index) \<or> (currentIndex \<le> i \<and> i < length items)" for i
          proof -
            from that consider "i \<in> set active" "i \<noteq> index"
              | "i = currentIndex" | "Suc currentIndex \<le> i" "i < length items"
              by force
            then show ?thesis
            proof cases
              case 1
              with s have "i \<in> set (active[p := currentIndex])" by simp
              with all show ?thesis by blast
            next
              case 2
              with s have "i \<in> set (active[p := currentIndex])" by simp
              with all show ?thesis by blast
            next
              case 3
              with all show ?thesis by blast
            qed
          qed
          with later show ?thesis by simp
        qed
      next
        case nlt: False
        have s: "set (take p active @ drop (Suc p) active) = set active - {index}"
          and d: "distinct (take p active @ drop (Suc p) active)"
          using set_remove_nth_distinct [OF 1(4) p] by (simp_all add: index_def)
        have c: "currentIndex = length items" using nlt 1(3) by simp
        have h: "case fst rest of
                    Inl e \<Rightarrow>
                      \<exists>pre j. snd rest = pre @ [j] \<and> j < length items \<and> fn (items ! j) j = Inl e
                             \<and> (\<forall>i\<in>set pre. \<exists>v. fn (items ! i) i = Inr v)
                  | Inr r \<Rightarrow> \<forall>i. i \<in> set (take p active @ drop (Suc p) active) \<or>
                                 (currentIndex \<le> i \<and> i < length items)
                                 \<longrightarrow> (\<exists>v. fn (items ! i) i = Inr v)"
          unfolding rest_def if_not_P [OF nlt]
          using 1(3) d s 1(5) c
          by (intro 1(2) [OF False p_def index_def Inr nlt]) auto
        show ?thesis
        proof (cases "fst rest")
          case (Inl e)
          with h show ?thesis by simp
        next
          case later: (Inr r)
          with h s show ?thesis by auto
        qed
      qed
      show ?thesis
      proof (cases "fst rest")
        case (Inl e)
        with ih obtain pre j where pj: "snd rest = pre @ [j]" "j < length items"
          "fn (items ! j) j = Inl e" "\<forall>i\<in>set pre. \<exists>v. fn (items ! i) i = Inr v"
          by auto
        have "index # snd rest = (index # pre) @ [j]" using pj(1) by simp
        moreover have "\<forall>i\<in>set (index # pre). \<exists>v. fn (items ! i) i = Inr v"
          using pj(4) Inr by simp
        ultimately have "\<exists>pre' j. index # snd rest = pre' @ [j] \<and> j < length items
                           \<and> fn (items ! j) j = Inl e
                           \<and> (\<forall>i\<in>set pre'. \<exists>v. fn (items ! i) i = Inr v)"
          using pj(2,3) by blast
        with Inl show ?thesis unfolding eq by simp
      next
        case later: (Inr r)
        with ih have all: "\<forall>i. (i \<in> set active \<and> i \<noteq> index) \<or>
                               (currentIndex \<le> i \<and> i < length items)
                               \<longrightarrow> (\<exists>v. fn (items ! i) i = Inr v)"
          by simp
        have "\<exists>v. fn (items ! i) i = Inr v"
          if "i \<in> set active \<or> (currentIndex \<le> i \<and> i < length items)" for i
          using that all Inr by (cases "i = index") auto
        with later show ?thesis unfolding eq by simp
      qed
    qed
  qed
qed

text \<open>
  C7 (as amended). For a concurrency limit of at least 1 and every order of completion:
  if every invocation succeeds, the result holds, at each index, the value produced for
  the item at that index; if some invocation fails, the batch fails with the error of
  the first invocation to settle with a failure (every invocation that settled before it
  succeeded).
\<close>

theorem withConcurrency_results:
  assumes "1 \<le> concurrency"
  shows "((\<forall>i<length items. fn (items ! i) i = Inr (g i)) \<longrightarrow>
            fst (withConcurrency sched items fn concurrency) =
              Inr (map (\<lambda>i. Some (g i)) [0..<length items]))
       \<and> ((\<exists>i<length items. \<exists>e. fn (items ! i) i = Inl e) \<longrightarrow>
            (\<exists>pre j e. snd (withConcurrency sched items fn concurrency) = pre @ [j]
               \<and> j < length items \<and> fn (items ! j) j = Inl e
               \<and> (\<forall>i\<in>set pre. \<exists>v. fn (items ! i) i = Inr v)
               \<and> fst (withConcurrency sched items fn concurrency) = Inl e))"
proof (cases "items = []")
  case True
  then show ?thesis by (simp add: withConcurrency_def)
next
  case False
  define w where "w = nat (min concurrency (int (length items)))"
  have w: "1 \<le> w" "w \<le> length items"
    using assms False by (auto simp: w_def Suc_le_eq)
  have run: "withConcurrency sched items fn concurrency =
             run_workers sched 0 fn items (replicate (length items) None) w [0..<w]"
    using False by (simp add: withConcurrency_def Let_def w_def)
  show ?thesis
  proof (intro conjI impI)
    assume "\<forall>i<length items. fn (items ! i) i = Inr (g i)"
    then show "fst (withConcurrency sched items fn concurrency) =
                 Inr (map (\<lambda>i. Some (g i)) [0..<length items])"
      unfolding run using w by (intro run_workers_all_succeed) auto
  next
    assume "\<exists>i<length items. \<exists>e. fn (items ! i) i = Inl e"
    then obtain i e where i: "i < length items" "fn (items ! i) i = Inl e" by blast
    have out: "case fst (run_workers sched 0 fn items (replicate (length items) None) w [0..<w]) of
           Inl e \<Rightarrow>
             \<exists>pre j. snd (run_workers sched 0 fn items (replicate (length items) None) w [0..<w])
                      = pre @ [j]
                    \<and> j < length items \<and> fn (items ! j) j = Inl e
                    \<and> (\<forall>i\<in>set pre. \<exists>v. fn (items ! i) i = Inr v)
         | Inr r \<Rightarrow> \<forall>i. i \<in> set [0..<w] \<or> (w \<le> i \<and> i < length items)
                        \<longrightarrow> (\<exists>v. fn (items ! i) i = Inr v)"
      using w by (intro run_workers_outcome) auto
    show "\<exists>pre j e. snd (withConcurrency sched items fn concurrency) = pre @ [j]
               \<and> j < length items \<and> fn (items ! j) j = Inl e
               \<and> (\<forall>i\<in>set pre. \<exists>v. fn (items ! i) i = Inr v)
               \<and> fst (withConcurrency sched items fn concurrency) = Inl e"
    proof (cases "fst (run_workers sched 0 fn items (replicate (length items) None) w [0..<w])")
      case (Inl e')
      with out show ?thesis unfolding run by auto
    next
      case (Inr r)
      with out have "\<exists>v. fn (items ! i) i = Inr v"
        using i(1) by (cases "i < w") auto
      with i(2) show ?thesis by simp
    qed
  qed
qed

theorem withConcurrency_results_witness:
  "(1::int) \<le> 2
   \<and> withConcurrency in_order [10, 20, 30] add_index 2
     = (Inr [Some 10, Some 21, Some 32], [0, 2, 1])
   \<and> withConcurrency in_order [10, 20, 30] fail_at_zero_and_one 2
     = (Inl (Error ''item 0 failed''), [0])
   \<and> withConcurrency last_first [10, 20, 30] fail_at_zero_and_one 2
     = (Inl (Error ''item 1 failed''), [1])"
  using withConcurrency_results
          [of 2 "[10, 20, 30]" add_index "\<lambda>i. [10, 20, 30] ! i + i" in_order]
        withConcurrency_results
          [of 2 "[10, 20, 30]" fail_at_zero_and_one "\<lambda>i. i" in_order]
        withConcurrency_results
          [of 2 "[10, 20, 30]" fail_at_zero_and_one "\<lambda>i. i" last_first]
  by (simp add: withConcurrency_def run_workers.simps numeral_3_eq_3 upt_rec
        add_index_def fail_at_zero_and_one_def in_order_def last_first_def)

theorem withConcurrency_zero_limit_counterexample:
  "withConcurrency in_order [10, 20, 30] add_index 0 = (Inr [None, None, None], [])"
  by (simp add: withConcurrency_def run_workers.simps numeral_3_eq_3)

end
